theory Spec2Isabelle
  imports Main "HOL-Library.Multiset" "HOL-Library.List_Lexorder" "HOL-Library.Char_ord"
begin

section \<open>The Go runtime and standard library, as far as the program uses them\<close>

text \<open>
  Go strings are byte sequences: a \<open>string\<close> here is a list of 8-bit characters.
  An \<open>error\<close> is modelled by its message; a nil error is \<open>None\<close>.
\<close>

type_synonym error = string

text \<open>
  A slice is either nil or holds its elements: \<open>var modules []string\<close> is nil until
  the first \<open>append\<close>, whereas \<open>[]string{}\<close> is empty and not nil.
\<close>

datatype 'a slice = NilSlice | Slice "'a list"

fun elems :: "'a slice \<Rightarrow> 'a list" where
  "elems NilSlice = []"
| "elems (Slice xs) = xs"

definition append_slice :: "'a slice \<Rightarrow> 'a \<Rightarrow> 'a slice" where
  "append_slice s x = Slice (elems s @ [x])"

subsection \<open>Package strings\<close>

definition HasPrefix :: "string \<Rightarrow> string \<Rightarrow> bool" where
  "HasPrefix s p = (length p \<le> length s \<and> take (length p) s = p)"

definition HasSuffix :: "string \<Rightarrow> string \<Rightarrow> bool" where
  "HasSuffix s suf = (length suf \<le> length s \<and> drop (length s - length suf) s = suf)"

definition TrimSuffix :: "string \<Rightarrow> string \<Rightarrow> string" where
  "TrimSuffix s suf = (if HasSuffix s suf then take (length s - length suf) s else s)"

text \<open>\<open>strings.Split(s, sep)\<close> for a separator of one byte: the parts between the
  separators, empty parts included; never the empty list.\<close>

fun Split :: "string \<Rightarrow> char \<Rightarrow> string list" where
  "Split [] sep = [[]]"
| "Split (c # cs) sep =
     (if c = sep then [] # Split cs sep
      else (case Split cs sep of [] \<Rightarrow> [[c]] | p # ps \<Rightarrow> (c # p) # ps))"

subsection \<open>Package fmt: the verb \<open>%d\<close>\<close>

fun itoa_nat :: "nat \<Rightarrow> string" where
  "itoa_nat n =
     (if n < 10 then [''0123456789'' ! n]
      else itoa_nat (n div 10) @ [''0123456789'' ! (n mod 10)])"

declare itoa_nat.simps [simp del]

definition itoa :: "int \<Rightarrow> string" where
  "itoa i = (if i < 0 then CHR ''-'' # itoa_nat (nat (- i)) else itoa_nat (nat i))"

subsection \<open>Package time\<close>

text \<open>
  A reading of the clock, as \<open>time.Now()\<close> presents it to \<open>Format\<close>: the civil
  date and time in the local zone, and the zone's offset east of UTC in seconds.
\<close>

record gotime =
  t_year :: nat
  t_month :: nat
  t_day :: nat
  t_hour :: nat
  t_minute :: nat
  t_second :: nat
  t_offset :: int

text \<open>A number in decimal, padded with zeros on the left to at least \<open>w\<close> digits.\<close>

definition pad :: "nat \<Rightarrow> nat \<Rightarrow> string" where
  "pad w n = replicate (w - length (itoa_nat n)) CHR ''0'' @ itoa_nat n"

text \<open>The layout \<open>2006-01-02T15:04:05\<close>, shared by both layouts the program uses.\<close>

definition Format_datetime :: "gotime \<Rightarrow> string" where
  "Format_datetime t =
     pad 4 (t_year t) @ ''-'' @ pad 2 (t_month t) @ ''-'' @ pad 2 (t_day t) @ ''T'' @
     pad 2 (t_hour t) @ '':'' @ pad 2 (t_minute t) @ '':'' @ pad 2 (t_second t)"

text \<open>The zone of \<open>Z07:00\<close>: \<open>Z\<close> for UTC, else the sign, hours and minutes of the
  offset (Go divides the offset by 60, truncating towards zero, before it takes the sign).\<close>

definition Format_zone :: "int \<Rightarrow> string" where
  "Format_zone off =
     (if off = 0 then ''Z''
      else (let zone = (if off < 0 then - ((- off) div 60) else off div 60);
                a = nat \<bar>zone\<bar>
            in (if zone < 0 then ''-'' else ''+'') @ pad 2 (a div 60) @ '':'' @ pad 2 (a mod 60)))"

text \<open>\<open>t.Format(time.RFC3339)\<close>, the layout \<open>2006-01-02T15:04:05Z07:00\<close>.\<close>

definition Format_RFC3339 :: "gotime \<Rightarrow> string" where
  "Format_RFC3339 t = Format_datetime t @ Format_zone (t_offset t)"

text \<open>\<open>t.Format("2006-01-02T15:04:05Z")\<close>: in this layout the \<open>Z\<close> is a literal.\<close>

definition Format_literalZ :: "gotime \<Rightarrow> string" where
  "Format_literalZ t = Format_datetime t @ ''Z''"

subsection \<open>Package path/filepath (Unix)\<close>

text \<open>\<open>filepath.Ext\<close>: the suffix from the last dot of the last element of the
  path, empty when that element has no dot. The source scans from the end and stops at
  a path separator.\<close>

fun Ext_scan :: "string \<Rightarrow> string \<Rightarrow> string" where
  "Ext_scan [] acc = []"
| "Ext_scan (c # rs) acc =
     (if c = CHR ''/'' then []
      else if c = CHR ''.'' then c # acc
      else Ext_scan rs (c # acc))"

definition Ext :: "string \<Rightarrow> string" where
  "Ext path = Ext_scan (rev path) []"

text \<open>
  \<open>filepath.Clean\<close>, on the elements of the path. The source works on bytes with a
  read and a write index; element by element it does this: an empty element and \<open>.\<close>
  are dropped; \<open>..\<close> removes the element before it when there is one that is not
  itself \<open>..\<close>, is dropped at the root of a rooted path, and is kept otherwise; every
  other element is kept. The elements that remain are joined by the separator, after the
  leading separator of a rooted path, and the empty result is \<open>.\<close>.
\<close>

definition rooted :: "string \<Rightarrow> bool" where
  "rooted path = (path \<noteq> [] \<and> hd path = CHR ''/'')"

text \<open>The elements of a path that name something: not empty, not \<open>.\<close>.\<close>

definition elements :: "string \<Rightarrow> string list" where
  "elements path = filter (\<lambda>e. e \<noteq> [] \<and> e \<noteq> ''.'') (Split path (CHR ''/''))"

definition clean_step :: "bool \<Rightarrow> string list \<Rightarrow> string \<Rightarrow> string list" where
  "clean_step is_rooted out e =
     (if e = ''..'' then
        (if out \<noteq> [] \<and> last out \<noteq> ''..'' then butlast out
         else if \<not> is_rooted then out @ [e]
         else out)
      else out @ [e])"

fun join_elements :: "string list \<Rightarrow> string" where
  "join_elements [] = []"
| "join_elements [e] = e"
| "join_elements (e # f # es) = e @ ''/'' @ join_elements (f # es)"

definition Clean :: "string \<Rightarrow> string" where
  "Clean path =
     (if path = [] then ''.''
      else (let out = (if rooted path then ''/'' else []) @
                      join_elements (foldl (clean_step (rooted path)) [] (elements path))
            in if out = [] then ''.'' else out))"

text \<open>\<open>filepath.Join\<close> of two elements: empty elements are ignored, the rest is joined
  by the separator and cleaned; the result is empty when both are.\<close>

definition Join :: "string \<Rightarrow> string \<Rightarrow> string" where
  "Join a b =
     (if a \<noteq> [] then Clean (a @ ''/'' @ b)
      else if b \<noteq> [] then Clean b
      else [])"

text \<open>\<open>filepath.Base\<close>: the last element of the path, after trailing separators are
  removed; \<open>.\<close> for the empty path and the separator for a path of separators only.\<close>

definition Base :: "string \<Rightarrow> string" where
  "Base path =
     (if path = [] then ''.''
      else (let stripped = rev (dropWhile (\<lambda>c. c = CHR ''/'') (rev path));
                e = rev (takeWhile (\<lambda>c. c \<noteq> CHR ''/'') (rev stripped))
            in if e = [] then ''/'' else e))"

definition IsAbs :: "string \<Rightarrow> bool" where
  "IsAbs path = HasPrefix path ''/''"

section \<open>The file system, as the program reads it\<close>

text \<open>
  The file system is the one of Linux, as far as \<open>os.Stat\<close>, \<open>os.Lstat\<close> and
  \<open>os.ReadDir\<close> show it. A node is a directory, a symbolic link with its target, or a
  file of any other kind (\<open>File\<close>). A directory holds named entries. Looking a name up
  in it needs the permission to search it, which the directory grants or not; reading it
  either returns all entries, or fails when the directory is opened, or fails with an
  error after the entries under some of the names have been read.

  A list of entries stands for the directory in which every name has the first entry
  that the list holds under it; an entry under a name that no directory can hold does
  not count. The state does not change during a run, the entries that a read returns
  carry their kinds, and there is no limit to the length of a path.
\<close>

datatype errno = ENOENT | ENOTDIR | EACCES | EIO | ELOOP | EINVAL

datatype reading = Complete | OpenFails errno | ReadFails errno "string list"

datatype node = File | Symlink string | Dir "(string \<times> node) list" bool reading

fun is_dir :: "node \<Rightarrow> bool" where
  "is_dir (Dir entries search reading) = True"
| "is_dir n = False"

text \<open>
  The state of the file system: the tree below \<open>/\<close>; the working directory of the
  process, given by the names of the directories from \<open>/\<close> down to it; and what
  \<open>os.Getwd\<close> returns, a path of the working directory or an error.
\<close>

record filesys =
  tree :: node
  cwd :: "string list"
  getwd :: "error + string"

record PathError =
  Op :: string
  Path :: string
  Err :: errno

fun errno_Error :: "errno \<Rightarrow> string" where
  "errno_Error ENOENT = ''no such file or directory''"
| "errno_Error ENOTDIR = ''not a directory''"
| "errno_Error EACCES = ''permission denied''"
| "errno_Error EIO = ''input/output error''"
| "errno_Error ELOOP = ''too many levels of symbolic links''"
| "errno_Error EINVAL = ''invalid argument''"

definition PathError_Error :: "PathError \<Rightarrow> string" where
  "PathError_Error e = Op e @ '' '' @ Path e @ '': '' @ errno_Error (Err e)"

definition IsNotExist :: "PathError \<Rightarrow> bool" where
  "IsNotExist e = (Err e = ENOENT)"

text \<open>
  A name that an entry of a directory can have: not empty, not \<open>.\<close> or \<open>..\<close>, without
  a separator and without a zero byte.
\<close>

definition valid_name :: "string \<Rightarrow> bool" where
  "valid_name n =
     (n \<noteq> [] \<and> n \<noteq> ''.'' \<and> n \<noteq> ''..'' \<and> CHR ''/'' \<notin> set n \<and> CHR 0x00 \<notin> set n)"

text \<open>The entry of a directory under a name: the first one stored under it.\<close>

definition entry_of :: "(string \<times> node) list \<Rightarrow> string \<Rightarrow> node option" where
  "entry_of entries name = (if valid_name name then map_of entries name else None)"

subsection \<open>Path name resolution\<close>

text \<open>
  The system resolves a path component by component. Its position is the directory it
  has reached together with the directories above it, the nearest first (\<open>..\<close> goes
  back to the one above, and stays at the root). \<open>descend\<close> gives the position of
  the working directory.
\<close>

fun descend :: "node list \<Rightarrow> string list \<Rightarrow> node list option" where
  "descend stack [] = Some stack"
| "descend [] (name # names) = None"
| "descend (cur # up) (name # names) =
     (case cur of
        Dir entries search reading \<Rightarrow>
          (case entry_of entries name of
             Some child \<Rightarrow> descend (child # cur # up) names
           | None \<Rightarrow> None)
      | _ \<Rightarrow> None)"

definition start :: "filesys \<Rightarrow> string \<Rightarrow> node list option" where
  "start fs path = (if rooted path then Some [tree fs] else descend [tree fs] (cwd fs))"

text \<open>
  \<open>namei root links stack cs follow\<close> resolves the components \<open>cs\<close> from the position
  \<open>stack\<close> and returns the position of the file found, the file first. A component is
  looked up in a directory only (\<open>ENOTDIR\<close>), so a file followed by a separator is
  refused; an empty component, between two separators or after the last, is passed
  over; every other component needs the permission to search the directory (\<open>EACCES\<close>)
  and, unless it is \<open>.\<close> or \<open>..\<close>, an entry of that name (\<open>ENOENT\<close>). A symbolic link
  is replaced by its target, resolved from the directory of the link or from the root;
  the link under the last component is followed only when \<open>follow\<close> is set. \<open>links\<close>
  is the number of links that may still be followed (\<open>ELOOP\<close>).
\<close>

fun namei :: "node \<Rightarrow> nat \<Rightarrow> node list \<Rightarrow> string list \<Rightarrow> bool \<Rightarrow> errno + node list" where
  "namei root links stack [] follow = Inr stack"
| "namei root links [] (c # cs) follow = Inl ENOENT"
| "namei root links (cur # up) (c # cs) follow =
     (case cur of
        Dir entries search reading \<Rightarrow>
          if c = [] then namei root links (cur # up) cs follow
          else if \<not> search then Inl EACCES
          else if c = ''.'' then namei root links (cur # up) cs follow
          else if c = ''..'' then namei root links (if up = [] then [cur] else up) cs follow
          else (case entry_of entries c of
                  None \<Rightarrow> Inl ENOENT
                | Some (Symlink target) \<Rightarrow>
                    if cs = [] \<and> \<not> follow then Inr (Symlink target # cur # up)
                    else (case links of
                            0 \<Rightarrow> Inl ELOOP
                          | Suc k \<Rightarrow>
                              if target = [] then Inl ENOENT
                              else namei root k (if rooted target then [root] else cur # up)
                                     (Split target (CHR ''/'') @ cs) follow)
                | Some child \<Rightarrow> namei root links (child # cur # up) cs follow)
      | _ \<Rightarrow> Inl ENOTDIR)"

text \<open>The number of symbolic links the system follows in one resolution.\<close>

definition MAXSYMLINKS :: nat where
  "MAXSYMLINKS = 40"

text \<open>
  The resolution of a path: from the root for a path that begins with a separator, from
  the working directory otherwise. A path with a zero byte is refused before the system
  sees it (\<open>EINVAL\<close>); the empty path names nothing.
\<close>

definition resolve :: "filesys \<Rightarrow> bool \<Rightarrow> string \<Rightarrow> errno + node list" where
  "resolve fs follow path =
     (if CHR 0x00 \<in> set path then Inl EINVAL
      else if path = [] then Inl ENOENT
      else (case start fs path of
              None \<Rightarrow> Inl ENOENT
            | Some stack \<Rightarrow> namei (tree fs) MAXSYMLINKS stack (Split path (CHR ''/'')) follow))"

subsection \<open>Package os\<close>

text \<open>What the program sees of a file: \<open>fs.DirEntry\<close> and \<open>fs.FileInfo\<close>, with the
  methods \<open>Name\<close> and \<open>IsDir\<close>.\<close>

record DirEntry =
  de_Name :: string
  de_IsDir :: bool

text \<open>The name of a \<open>FileInfo\<close>: the path without its trailing separators and without
  the directories before its last element.\<close>

definition basename :: "string \<Rightarrow> string" where
  "basename name =
     (case name of
        [] \<Rightarrow> []
      | c # cs \<Rightarrow>
          (let stripped = c # rev (dropWhile (\<lambda>x. x = CHR ''/'') (rev cs))
           in if stripped = ''/'' then ''/''
              else rev (takeWhile (\<lambda>x. x \<noteq> CHR ''/'') (rev stripped))))"

text \<open>\<open>os.Stat\<close> follows a symbolic link under the last component, \<open>os.Lstat\<close> does not.\<close>

definition os_Stat :: "filesys \<Rightarrow> string \<Rightarrow> PathError + DirEntry" where
  "os_Stat fs path =
     (case resolve fs True path of
        Inl e \<Rightarrow> Inl \<lparr>Op = ''stat'', Path = path, Err = e\<rparr>
      | Inr [] \<Rightarrow> Inl \<lparr>Op = ''stat'', Path = path, Err = ENOENT\<rparr>
      | Inr (n # up) \<Rightarrow> Inr \<lparr>de_Name = basename path, de_IsDir = is_dir n\<rparr>)"

definition os_Lstat :: "filesys \<Rightarrow> string \<Rightarrow> PathError + DirEntry" where
  "os_Lstat fs path =
     (case resolve fs False path of
        Inl e \<Rightarrow> Inl \<lparr>Op = ''lstat'', Path = path, Err = e\<rparr>
      | Inr [] \<Rightarrow> Inl \<lparr>Op = ''lstat'', Path = path, Err = ENOENT\<rparr>
      | Inr (n # up) \<Rightarrow> Inr \<lparr>de_Name = basename path, de_IsDir = is_dir n\<rparr>)"

text \<open>
  The entries that reading a directory returns: the names in the directory, sorted as
  \<open>os.ReadDir\<close> sorts them, each with the kind of the file under that name.
\<close>

definition entry_names :: "(string \<times> node) list \<Rightarrow> string list" where
  "entry_names entries = sort (remdups (filter valid_name (map fst entries)))"

definition dir_entry :: "(string \<times> node) list \<Rightarrow> string \<Rightarrow> DirEntry" where
  "dir_entry entries name =
     \<lparr>de_Name = name,
      de_IsDir = (case entry_of entries name of Some n \<Rightarrow> is_dir n | None \<Rightarrow> False)\<rparr>"

text \<open>
  \<open>os.ReadDir\<close> opens the directory, following symbolic links, and reads it: it returns
  no entry when the path cannot be opened as a directory, all entries and no error when
  the read is complete, and the entries read before the error together with the error
  when the read fails.
\<close>

definition os_ReadDir :: "filesys \<Rightarrow> string \<Rightarrow> DirEntry list \<times> PathError option" where
  "os_ReadDir fs path =
     (case resolve fs True path of
        Inl e \<Rightarrow> ([], Some \<lparr>Op = ''open'', Path = path, Err = e\<rparr>)
      | Inr (Dir entries search reading # up) \<Rightarrow>
          (case reading of
             Complete \<Rightarrow> (map (dir_entry entries) (entry_names entries), None)
           | OpenFails e \<Rightarrow> ([], Some \<lparr>Op = ''open'', Path = path, Err = e\<rparr>)
           | ReadFails e names \<Rightarrow>
               (map (dir_entry entries) (filter (\<lambda>n. n \<in> set names) (entry_names entries)),
                Some \<lparr>Op = ''readdirent'', Path = path, Err = e\<rparr>))
      | Inr other \<Rightarrow> ([], Some \<lparr>Op = ''open'', Path = path, Err = ENOTDIR\<rparr>))"

subsection \<open>Package path/filepath: Abs\<close>

definition Abs :: "filesys \<Rightarrow> string \<Rightarrow> error + string" where
  "Abs fs path =
     (if IsAbs path then Inr (Clean path)
      else (case getwd fs of
              Inl err \<Rightarrow> Inl err
            | Inr wd \<Rightarrow> Inr (Join wd path)))"

section \<open>Package path/filepath: WalkDir\<close>

text \<open>
  What the function given to \<open>WalkDir\<close> returns: nil (\<open>Proceed\<close>), one of the two
  sentinel errors, or another error. What it is called with: the path and either the
  entry (the error being nil), or the error of \<open>Lstat\<close> on the root (the entry being nil)
  or of \<open>ReadDir\<close> on a directory (with its entry).
\<close>

datatype walk_result = Proceed | SkipDir | SkipAll | Failure error

datatype walk_arg = Visit DirEntry | ReadFailed "DirEntry option" PathError

text \<open>
  \<open>walkDir\<close> calls the function for the entry and, for a directory, reads the directory
  under the path and walks the entries it gets, each under the path joined with its
  name; \<open>walkEntries\<close> is the loop over these entries. The state \<open>'s\<close> is what the
  function changes. That the walk terminates is proved below, with the properties of
  name resolution.
\<close>

function walkDir ::
    "filesys \<Rightarrow> ('s \<Rightarrow> string \<Rightarrow> walk_arg \<Rightarrow> 's \<times> walk_result) \<Rightarrow> string \<Rightarrow> DirEntry \<Rightarrow> 's
      \<Rightarrow> 's \<times> walk_result"
  and walkEntries ::
    "filesys \<Rightarrow> ('s \<Rightarrow> string \<Rightarrow> walk_arg \<Rightarrow> 's \<times> walk_result) \<Rightarrow> string \<Rightarrow> DirEntry list \<Rightarrow> 's
      \<Rightarrow> 's \<times> walk_result"
where
  "walkDir fs fn path d st =
     (case fn st path (Visit d) of
        (st1, Proceed) \<Rightarrow>
          if \<not> de_IsDir d then (st1, Proceed)
          else (case os_ReadDir fs path of
                  (dirs, None) \<Rightarrow> walkEntries fs fn path dirs st1
                | (dirs, Some err) \<Rightarrow>
                    (case fn st1 path (ReadFailed (Some d) err) of
                       (st2, Proceed) \<Rightarrow> walkEntries fs fn path dirs st2
                     | (st2, SkipDir) \<Rightarrow> (st2, Proceed)
                     | (st2, r) \<Rightarrow> (st2, r)))
      | (st1, SkipDir) \<Rightarrow> (st1, if de_IsDir d then Proceed else SkipDir)
      | (st1, r) \<Rightarrow> (st1, r))"
| "walkEntries fs fn path [] st = (st, Proceed)"
| "walkEntries fs fn path (d1 # rest) st =
     (case walkDir fs fn (Join path (de_Name d1)) d1 st of
        (st1, Proceed) \<Rightarrow> walkEntries fs fn path rest st1
      | (st1, SkipDir) \<Rightarrow> (st1, Proceed)
      | (st1, r) \<Rightarrow> (st1, r))"
  by pat_completeness auto

text \<open>
  \<open>WalkDir\<close>: when \<open>os.Lstat\<close> fails on the root, the function is called once with the
  error; otherwise the walk starts at the root with the entry that \<open>Lstat\<close> describes.
  The sentinel errors that reach the top are turned into nil.
\<close>

definition WalkDir ::
    "filesys \<Rightarrow> string \<Rightarrow> ('s \<Rightarrow> string \<Rightarrow> walk_arg \<Rightarrow> 's \<times> walk_result) \<Rightarrow> 's \<Rightarrow> 's \<times> error option"
where
  "WalkDir fs root fn st =
     (let (st1, r) =
            (case os_Lstat fs root of
               Inl err \<Rightarrow> fn st root (ReadFailed None err)
             | Inr info \<Rightarrow> walkDir fs fn root info st)
      in case r of
           Failure err \<Rightarrow> (st1, Some err)
         | _ \<Rightarrow> (st1, None))"

section \<open>internal/sbom/types.go\<close>

record ModuleInfo =
  Name :: string
  Source :: string
  Version :: string
  Location :: string
  Filename :: string

text \<open>The field \<open>XMLName\<close> is never set by the program and is left out.\<close>

record SBOM =
  SBOM_Version :: string
  Generated :: string
  Tool :: string
  Modules :: "ModuleInfo slice"

section \<open>internal/sbom: finding the module directories\<close>

text \<open>The loop of \<open>HasTerraformFiles\<close> over the entries.\<close>

fun any_tf_entry :: "DirEntry list \<Rightarrow> bool" where
  "any_tf_entry [] = False"
| "any_tf_entry (entry # rest) =
     (if \<not> de_IsDir entry \<and> HasSuffix (de_Name entry) ''.tf'' then True
      else any_tf_entry rest)"

definition HasTerraformFiles :: "filesys \<Rightarrow> string \<Rightarrow> bool" where
  "HasTerraformFiles fs dir =
     (case os_ReadDir fs dir of
        (entries, Some err) \<Rightarrow> False
      | (entries, None) \<Rightarrow> any_tf_entry entries)"

definition ValidateTerraformDirectory :: "filesys \<Rightarrow> string \<Rightarrow> error option" where
  "ValidateTerraformDirectory fs path =
     (case os_Stat fs path of
        Inl err \<Rightarrow>
          (if IsNotExist err then Some (''path does not exist: '' @ path)
           else Some (''failed to stat path: '' @ PathError_Error err))
      | Inr info \<Rightarrow>
          (if \<not> de_IsDir info
           then Some (''path must be a directory containing Terraform files: '' @ path)
           else None))"

text \<open>What the function literal given to \<open>WalkDir\<close> changes: the variable \<open>modules\<close> it
  closes over, and the standard error stream.\<close>

record walk_state =
  modules :: "string slice"
  stderr :: string

definition find_visit ::
    "filesys \<Rightarrow> string \<Rightarrow> walk_state \<Rightarrow> string \<Rightarrow> walk_arg \<Rightarrow> walk_state \<times> walk_result" where
  "find_visit fs root st path arg =
     (case arg of
        ReadFailed d err \<Rightarrow>
          (st\<lparr>stderr := stderr st @ ''Warning: skipping '' @ path @ '' due to error: '' @
                 PathError_Error err @ [CHR 0x0A]\<rparr>, Proceed)
      | Visit d \<Rightarrow>
          (if de_IsDir d \<and> HasPrefix (de_Name d) ''.'' \<and> path \<noteq> root then (st, SkipDir)
           else if de_IsDir d \<and> HasTerraformFiles fs path
             then (st\<lparr>modules := append_slice (modules st) path\<rparr>, Proceed)
           else (st, Proceed)))"

text \<open>\<open>FindTerraformModules\<close> returns the directories and the error; the third
  component is what it wrote to the standard error stream.\<close>

definition FindTerraformModules ::
    "filesys \<Rightarrow> string \<Rightarrow> bool \<Rightarrow> string slice \<times> error option \<times> string" where
  "FindTerraformModules fs root recursive =
     (if \<not> recursive then
        (if HasTerraformFiles fs root then (Slice [root], None, [])
         else (Slice [], None, []))
      else (let (st, err) = WalkDir fs root (find_visit fs root) \<lparr>modules = NilSlice, stderr = []\<rparr>
            in (modules st, err, stderr st)))"

section \<open>internal/sbom: generating the SBOM\<close>

text \<open>
  The parser, \<open>tfconfig.LoadModule\<close>, is outside the repository: it is a parameter that
  gives, for a directory, the module and the diagnostics. \<open>ModuleCalls\<close> is declared
  \<open>map[string]*ModuleCall\<close> there: the list holds the entries of the map, one per key,
  in no order that the program could observe.
\<close>

record ModuleCall =
  mc_Name :: string
  mc_Source :: string
  mc_Version :: string
  Pos_Filename :: string
  Pos_Line :: int

record tfModule =
  ModuleCalls :: "(string \<times> ModuleCall) list"

record Diagnostics =
  diag_HasErrors :: bool
  diag_Error :: string

type_synonym parser = "string \<Rightarrow> tfModule \<times> Diagnostics"

text \<open>
  \<open>range\<close> over a map visits every entry once, in an order that Go leaves unspecified
  and varies from one run to the next. A run fixes the order by a sequence of choices:
  each choice picks the next entry among those not yet visited.
\<close>

primrec range_order :: "nat list \<Rightarrow> 'a list \<Rightarrow> 'a list" where
  "range_order [] xs = xs"
| "range_order (c # cs) xs =
     (if xs = [] then []
      else (let i = c mod length xs
            in xs ! i # range_order cs (take i xs @ drop (Suc i) xs)))"

definition module_info :: "ModuleCall \<Rightarrow> ModuleInfo" where
  "module_info moduleCall =
     \<lparr>Name = mc_Name moduleCall,
      Source = mc_Source moduleCall,
      Version = mc_Version moduleCall,
      Location = ''Module call at '' @ Pos_Filename moduleCall @ '':'' @ itoa (Pos_Line moduleCall),
      Filename = Base (Pos_Filename moduleCall)\<rparr>"

text \<open>The inner loop, over the module calls of one directory.\<close>

fun calls_loop :: "SBOM \<Rightarrow> ModuleCall list \<Rightarrow> SBOM" where
  "calls_loop sbom [] = sbom"
| "calls_loop sbom (moduleCall # rest) =
     calls_loop (sbom\<lparr>Modules := append_slice (Modules sbom) (module_info moduleCall)\<rparr>) rest"

text \<open>The outer loop, over the module directories; \<open>order\<close> gives the choices of the
  run for the map of each directory.\<close>

fun dirs_loop :: "parser \<Rightarrow> (string \<Rightarrow> nat list) \<Rightarrow> SBOM \<Rightarrow> string list \<Rightarrow> error + SBOM" where
  "dirs_loop LoadModule order sbom [] = Inr sbom"
| "dirs_loop LoadModule order sbom (moduleDir # rest) =
     (let (module, diags) = LoadModule moduleDir
      in if diag_HasErrors diags
         then Inl (''failed to load Terraform module from '' @ moduleDir @ '': '' @ diag_Error diags)
         else dirs_loop LoadModule order
                (calls_loop sbom (map snd (range_order (order moduleDir) (ModuleCalls module)))) rest)"

text \<open>
  \<open>Generate\<close> returns the SBOM or the error; the second component is what the run wrote
  to the standard error stream. \<open>now\<close> is the reading of the clock by \<open>time.Now()\<close>.
\<close>

definition Generate ::
    "filesys \<Rightarrow> parser \<Rightarrow> gotime \<Rightarrow> (string \<Rightarrow> nat list) \<Rightarrow> string \<Rightarrow> bool \<Rightarrow> (error + SBOM) \<times> string"
where
  "Generate fs LoadModule now order configPath recursive =
     (case ValidateTerraformDirectory fs configPath of
        Some err \<Rightarrow> (Inl err, [])
      | None \<Rightarrow>
          (case Abs fs configPath of
             Inl err \<Rightarrow> (Inl (''failed to get absolute path: '' @ err), [])
           | Inr absPath \<Rightarrow>
               (case FindTerraformModules fs absPath recursive of
                  (moduleDirs, Some err, out) \<Rightarrow>
                    (Inl (''failed to find Terraform modules: '' @ err), out)
                | (moduleDirs, None, out) \<Rightarrow>
                    (dirs_loop LoadModule order
                       \<lparr>SBOM_Version = ''1.0'', Generated = Format_RFC3339 now,
                        Tool = ''terraform-sbom'', Modules = Slice []\<rparr>
                       (elems moduleDirs), out))))"

section \<open>Package encoding/csv: the writer\<close>

text \<open>
  The writer holds its delimiter and the bytes buffered so far. The delimiter is a rune
  in Go; the program only passes a comma or a tab, and a byte stands for it here.
  \<open>UseCRLF\<close> keeps its default, false.
\<close>

record csvWriter =
  Comma :: char
  buffered :: string

definition csv_NewWriter :: csvWriter where
  "csv_NewWriter = \<lparr>Comma = CHR '','', buffered = []\<rparr>"

definition validDelim :: "char \<Rightarrow> bool" where
  "validDelim r = (r \<noteq> CHR 0x00 \<and> r \<noteq> CHR 0x22 \<and> r \<noteq> CHR 0x0D \<and> r \<noteq> CHR 0x0A)"

text \<open>\<open>unicode.IsSpace\<close> of the first rune of a field: the ASCII white space, and the
  UTF-8 encodings of U+0085, U+00A0, U+1680, U+2000 to U+200A, U+2028, U+2029, U+202F,
  U+205F and U+3000.\<close>

fun leadingSpace :: "string \<Rightarrow> bool" where
  "leadingSpace [] = False"
| "leadingSpace (c # cs) =
     (c \<in> set [CHR 0x09, CHR 0x0A, CHR 0x0B, CHR 0x0C, CHR 0x0D, CHR 0x20]
      \<or> (c = CHR 0xC2 \<and> (take 1 cs = [CHR 0x85] \<or> take 1 cs = [CHR 0xA0]))
      \<or> (c = CHR 0xE1 \<and> take 2 cs = [CHR 0x9A, CHR 0x80])
      \<or> (c = CHR 0xE2 \<and> take 1 cs = [CHR 0x80] \<and>
            take 1 (drop 1 cs) \<in> set (map (\<lambda>b. [b])
              [CHR 0x80, CHR 0x81, CHR 0x82, CHR 0x83, CHR 0x84, CHR 0x85, CHR 0x86,
               CHR 0x87, CHR 0x88, CHR 0x89, CHR 0x8A, CHR 0xA8, CHR 0xA9, CHR 0xAF]))
      \<or> (c = CHR 0xE2 \<and> take 2 cs = [CHR 0x81, CHR 0x9F])
      \<or> (c = CHR 0xE3 \<and> take 2 cs = [CHR 0x80, CHR 0x80]))"

definition fieldNeedsQuotes :: "char \<Rightarrow> string \<Rightarrow> bool" where
  "fieldNeedsQuotes comma field =
     (if field = [] then False
      else if field = [CHR 0x5C, CHR ''.''] then True
      else if list_ex (\<lambda>c. c = CHR 0x0A \<or> c = CHR 0x0D \<or> c = CHR 0x22 \<or> c = comma) field
        then True
      else leadingSpace field)"

text \<open>A quoted field: every double quote is doubled; carriage returns and line feeds
  are kept as they are.\<close>

definition csv_quote :: "string \<Rightarrow> string" where
  "csv_quote field =
     [CHR 0x22] @ concat (map (\<lambda>c. if c = CHR 0x22 then [CHR 0x22, CHR 0x22] else [c]) field)
       @ [CHR 0x22]"

definition csv_field :: "char \<Rightarrow> string \<Rightarrow> string" where
  "csv_field comma field = (if fieldNeedsQuotes comma field then csv_quote field else field)"

fun csv_fields :: "char \<Rightarrow> string list \<Rightarrow> string" where
  "csv_fields comma [] = []"
| "csv_fields comma [f] = csv_field comma f"
| "csv_fields comma (f # g # fs) = csv_field comma f @ [comma] @ csv_fields comma (g # fs)"

text \<open>One record as a line of the output.\<close>

definition csv_row :: "char \<Rightarrow> string list \<Rightarrow> string" where
  "csv_row comma record = csv_fields comma record @ [CHR 0x0A]"

definition csv_Write :: "csvWriter \<Rightarrow> string list \<Rightarrow> csvWriter \<times> error option" where
  "csv_Write w record =
     (if \<not> validDelim (Comma w) then (w, Some ''csv: invalid field or comment delimiter'')
      else (w\<lparr>buffered := buffered w @ csv_row (Comma w) record\<rparr>, None))"

section \<open>internal/export: delimited output\<close>

text \<open>
  A writer function of the package returns the error, and changes the \<open>io.Writer\<close> it
  is given: the model returns the bytes that reached the writer together with the error.
  The \<open>io.Writer\<close> itself accepts every byte (a file, a buffer).
\<close>

type_synonym written = "string \<times> error option"

text \<open>The loop over \<open>s.Modules\<close> that writes the data rows.\<close>

fun write_records :: "csvWriter \<Rightarrow> string \<Rightarrow> ModuleInfo list \<Rightarrow> csvWriter \<times> error option" where
  "write_records w formatName [] = (w, None)"
| "write_records w formatName (module # rest) =
     (case csv_Write w [Name module, Source module, Version module, Location module] of
        (w', Some err) \<Rightarrow> (w', Some (''failed to write '' @ formatName @ '' record: '' @ err))
      | (w', None) \<Rightarrow> write_records w' formatName rest)"

definition exportDelimited :: "SBOM \<Rightarrow> char \<Rightarrow> string \<Rightarrow> written" where
  "exportDelimited s separator formatName =
     (let csvWriter = csv_NewWriter\<lparr>Comma := separator\<rparr>;
          headers = [''Name'', ''Source'', ''Version'', ''Location'']
      in case csv_Write csvWriter headers of
           (w1, Some err) \<Rightarrow> ([], Some (''failed to write '' @ formatName @ '' headers: '' @ err))
         | (w1, None) \<Rightarrow>
             (case write_records w1 formatName (elems (Modules s)) of
                (w2, Some err) \<Rightarrow> ([], Some err)
              | (w2, None) \<Rightarrow> (buffered w2, None)))"

definition CSV :: "SBOM \<Rightarrow> written" where
  "CSV s = exportDelimited s (CHR '','') ''CSV''"

definition TSV :: "SBOM \<Rightarrow> written" where
  "TSV s = exportDelimited s (CHR 0x09) ''TSV''"

section \<open>internal/export/spdx.go\<close>

text \<open>The fields of the SPDX 2.3 document and package that the program sets; every
  other field of the library's structs keeps its zero value.\<close>

record CreationInfo =
  Created :: string
  Creators :: "string list"

record Package =
  PackageName :: string
  PackageSPDXIdentifier :: string
  PackageDownloadLocation :: string
  PackageCopyrightText :: string
  PackageVersion :: string

text \<open>\<open>Packages\<close> is a slice of pointers: \<open>make\<close> fills it with nil pointers.\<close>

record Document =
  SPDXVersion :: string
  DataLicense :: string
  SPDXIdentifier :: string
  DocumentName :: string
  DocumentNamespace :: string
  Document_CreationInfo :: CreationInfo
  Packages :: "Package option list"

text \<open>The body of the loop: the package built for the module at index \<open>i\<close>.\<close>

definition spdx_package :: "nat \<Rightarrow> ModuleInfo \<Rightarrow> Package" where
  "spdx_package i module =
     (let pkg = \<lparr>PackageName = Name module,
                 PackageSPDXIdentifier = ''SPDXRef-Package-'' @ itoa (int i),
                 PackageDownloadLocation = Source module,
                 PackageCopyrightText = ''NOASSERTION'',
                 PackageVersion = []\<rparr>
      in if Version module \<noteq> [] then pkg\<lparr>PackageVersion := Version module\<rparr>
         else pkg\<lparr>PackageVersion := ''NOASSERTION''\<rparr>)"

text \<open>\<open>for i, module := range s.Modules { ...; doc.Packages[i] = pkg }\<close>\<close>

fun spdx_loop :: "Package option list \<Rightarrow> (nat \<times> ModuleInfo) list \<Rightarrow> Package option list" where
  "spdx_loop pkgs [] = pkgs"
| "spdx_loop pkgs ((i, module) # rest) = spdx_loop (pkgs[i := Some (spdx_package i module)]) rest"

text \<open>The two calls of \<open>time.Now()\<close> are the two clock readings, in program order.\<close>

definition ConvertToSPDX :: "gotime \<Rightarrow> gotime \<Rightarrow> SBOM \<Rightarrow> Document" where
  "ConvertToSPDX now1 now2 s =
     (let doc = \<lparr>SPDXVersion = ''SPDX-2.3'',
                 DataLicense = ''CC0-1.0'',
                 SPDXIdentifier = ''SPDXRef-DOCUMENT'',
                 DocumentName = ''Terraform Configuration SBOM'',
                 DocumentNamespace = ''https://terraform-sbom.local/'' @ Format_literalZ now1,
                 Document_CreationInfo =
                   \<lparr>Created = Format_RFC3339 now2, Creators = [''Tool: terraform-sbom'']\<rparr>,
                 Packages = replicate (length (elems (Modules s))) None\<rparr>
      in doc\<lparr>Packages := spdx_loop (Packages doc) (enumerate 0 (elems (Modules s)))\<rparr>)"

section \<open>internal/export/cyclonedx.go\<close>

datatype SpecVersion =
  SpecVersion1_0 | SpecVersion1_1 | SpecVersion1_2 | SpecVersion1_3 | SpecVersion1_4
  | SpecVersion1_5 | SpecVersion1_6

record Component =
  Component_Type :: string
  Component_Name :: string
  Component_Version :: string
  Component_Group :: string

record CdxTool =
  Tool_Name :: string
  Tool_Version :: string

record Metadata =
  Timestamp :: string
  Tools :: "CdxTool list"

record BOM =
  BOMFormat :: string
  BOM_SpecVersion :: SpecVersion
  BOM_Version :: int
  BOM_Metadata :: "Metadata option"
  Components :: "Component list option"

text \<open>\<open>cyclonedx.NewBOM()\<close>, on the fields above.\<close>

definition NewBOM :: BOM where
  "NewBOM = \<lparr>BOMFormat = ''CycloneDX'', BOM_SpecVersion = SpecVersion1_6, BOM_Version = 1,
             BOM_Metadata = None, Components = None\<rparr>"

text \<open>The zero value of a component, as \<open>make\<close> fills the slice.\<close>

definition zero_Component :: Component where
  "zero_Component =
     \<lparr>Component_Type = [], Component_Name = [], Component_Version = [], Component_Group = []\<rparr>"

text \<open>The body of the loop. \<open>strings.Split\<close> never returns an empty slice for a
  separator that is not empty; the guard of the source is kept.\<close>

definition cdx_component :: "ModuleInfo \<Rightarrow> Component" where
  "cdx_component module =
     (let component = zero_Component\<lparr>Component_Type := ''library'', Component_Name := Name module\<rparr>;
          component = (if Version module \<noteq> []
                       then component\<lparr>Component_Version := Version module\<rparr> else component)
      in if length (Source module) > 0
         then (let parts = Split (Source module) (CHR ''/'')
               in if length parts > 0 then component\<lparr>Component_Group := hd parts\<rparr>
                  else component)
         else component)"

fun cdx_loop :: "Component list \<Rightarrow> (nat \<times> ModuleInfo) list \<Rightarrow> Component list" where
  "cdx_loop components [] = components"
| "cdx_loop components ((i, module) # rest) =
     cdx_loop (components[i := cdx_component module]) rest"

definition ConvertToCycloneDX :: "gotime \<Rightarrow> SBOM \<Rightarrow> BOM" where
  "ConvertToCycloneDX now s =
     (let bom = NewBOM\<lparr>BOMFormat := ''CycloneDX'', BOM_SpecVersion := SpecVersion1_6,
                       BOM_Version := 1\<rparr>;
          bom = bom\<lparr>BOM_Metadata := Some
                  \<lparr>Timestamp = Format_RFC3339 now,
                   Tools = [\<lparr>Tool_Name = ''terraform-sbom'', Tool_Version = ''1.0.0''\<rparr>]\<rparr>\<rparr>;
          components = replicate (length (elems (Modules s))) zero_Component;
          components = cdx_loop components (enumerate 0 (elems (Modules s)))
      in bom\<lparr>Components := Some components\<rparr>)"

section \<open>internal/export/export.go\<close>

text \<open>
  What the export needs from outside the repository: whether \<open>os.Create\<close> fails for a
  path (and with which error), and the serialisers of the libraries. \<open>export.XML\<close> is
  called by \<open>Export\<close>; it is taken as a parameter like them.
\<close>

record exportEnv =
  os_Create_error :: "string \<Rightarrow> error option"
  json_Encode :: "SBOM \<Rightarrow> written"
  XML :: "SBOM \<Rightarrow> written"
  spdxjson_Write :: "Document \<Rightarrow> written"
  cyclonedx_Encode :: "BOM \<Rightarrow> written"

definition JSON :: "exportEnv \<Rightarrow> SBOM \<Rightarrow> written" where
  "JSON env s =
     (case json_Encode env s of
        (bytes, Some err) \<Rightarrow> (bytes, Some (''failed to encode SBOM as JSON: '' @ err))
      | (bytes, None) \<Rightarrow> (bytes, None))"

definition SPDX :: "exportEnv \<Rightarrow> gotime \<Rightarrow> gotime \<Rightarrow> SBOM \<Rightarrow> written" where
  "SPDX env now1 now2 s = spdxjson_Write env (ConvertToSPDX now1 now2 s)"

definition CycloneDX :: "exportEnv \<Rightarrow> gotime \<Rightarrow> SBOM \<Rightarrow> written" where
  "CycloneDX env now s = cyclonedx_Encode env (ConvertToCycloneDX now s)"

text \<open>The files of the output file system: the content stored under each path.\<close>

type_synonym files = "string \<rightharpoonup> string"

text \<open>Writing through the file that \<open>os.Create\<close> opened: the bytes that reached the
  writer become the content of the file.\<close>

definition write_file :: "files \<Rightarrow> string \<Rightarrow> written \<Rightarrow> files \<times> error option" where
  "write_file fs path w = (fs(path \<mapsto> fst w), snd w)"

text \<open>\<open>Export\<close> returns the error; the model returns the files it leaves behind as
  well. A nil \<open>*SBOM\<close> is \<open>None\<close>.\<close>

definition Export ::
  "exportEnv \<Rightarrow> gotime \<Rightarrow> gotime \<Rightarrow> files \<Rightarrow> SBOM option \<Rightarrow> string \<Rightarrow> string \<Rightarrow> files \<times> error option"
where
  "Export env now1 now2 fs s format outputPath =
     (case s of
        None \<Rightarrow> (fs, Some ''sbom cannot be nil'')
      | Some sb \<Rightarrow>
          if format = [] then (fs, Some ''format cannot be empty'')
          else if outputPath = [] then (fs, Some ''output path cannot be empty'')
          else (case os_Create_error env outputPath of
                  Some err \<Rightarrow> (fs, Some (''failed to create output file: '' @ err))
                | None \<Rightarrow>
                    (let fs1 = fs(outputPath \<mapsto> [])
                     in if format = ''json'' then write_file fs1 outputPath (JSON env sb)
                        else if format = ''xml'' then write_file fs1 outputPath (XML env sb)
                        else if format = ''csv'' then write_file fs1 outputPath (CSV sb)
                        else if format = ''tsv'' then write_file fs1 outputPath (TSV sb)
                        else if format = ''spdx''
                          then write_file fs1 outputPath (SPDX env now1 now2 sb)
                        else if format = ''cyclonedx''
                          then write_file fs1 outputPath (CycloneDX env now1 sb)
                        else (fs1, Some (''unsupported format: '' @ format @
                          '' (supported: json, xml, csv, tsv, spdx, cyclonedx)'')))))"

definition GenerateOutputFilename :: "string \<Rightarrow> string \<Rightarrow> string" where
  "GenerateOutputFilename baseOutput format =
     (if baseOutput = [] then
        (if format = ''json'' then ''sbom.json''
         else if format = ''xml'' then ''sbom.xml''
         else if format = ''csv'' then ''sbom.csv''
         else if format = ''tsv'' then ''sbom.tsv''
         else if format = ''spdx'' then ''sbom.spdx.json''
         else if format = ''cyclonedx'' then ''sbom.cyclonedx.json''
         else ''sbom.json'')
      else
        (let ext = Ext baseOutput;
             base = TrimSuffix baseOutput ext
         in if format = ''json'' then base @ ''.json''
            else if format = ''xml'' then base @ ''.xml''
            else if format = ''csv'' then base @ ''.csv''
            else if format = ''tsv'' then base @ ''.tsv''
            else if format = ''spdx'' then base @ ''.spdx.json''
            else if format = ''cyclonedx'' then base @ ''.cyclonedx.json''
            else base @ ''.json''))"

section \<open>main.go: the copies of the file name derivation and of the directory search\<close>

definition generateOutputFilename :: "string \<Rightarrow> string \<Rightarrow> string" where
  "generateOutputFilename baseOutput format =
     (if baseOutput = [] then
        (if format = ''json'' then ''sbom.json''
         else if format = ''xml'' then ''sbom.xml''
         else if format = ''csv'' then ''sbom.csv''
         else if format = ''tsv'' then ''sbom.tsv''
         else if format = ''spdx'' then ''sbom.spdx.json''
         else if format = ''cyclonedx'' then ''sbom.cyclonedx.json''
         else ''sbom.json'')
      else
        (let ext = Ext baseOutput;
             base = TrimSuffix baseOutput ext
         in if format = ''json'' then base @ ''.json''
            else if format = ''xml'' then base @ ''.xml''
            else if format = ''csv'' then base @ ''.csv''
            else if format = ''tsv'' then base @ ''.tsv''
            else if format = ''spdx'' then base @ ''.spdx.json''
            else if format = ''cyclonedx'' then base @ ''.cyclonedx.json''
            else base @ ''.json''))"

definition hasTerraformFiles :: "filesys \<Rightarrow> string \<Rightarrow> bool" where
  "hasTerraformFiles fs dir =
     (case os_ReadDir fs dir of
        (entries, Some err) \<Rightarrow> False
      | (entries, None) \<Rightarrow> any_tf_entry entries)"

definition main_find_visit ::
    "filesys \<Rightarrow> string \<Rightarrow> walk_state \<Rightarrow> string \<Rightarrow> walk_arg \<Rightarrow> walk_state \<times> walk_result" where
  "main_find_visit fs root st path arg =
     (case arg of
        ReadFailed d err \<Rightarrow>
          (st\<lparr>stderr := stderr st @ ''Warning: skipping '' @ path @ '' due to error: '' @
                 PathError_Error err @ [CHR 0x0A]\<rparr>, Proceed)
      | Visit d \<Rightarrow>
          (if de_IsDir d \<and> HasPrefix (de_Name d) ''.'' \<and> path \<noteq> root then (st, SkipDir)
           else if de_IsDir d \<and> hasTerraformFiles fs path
             then (st\<lparr>modules := append_slice (modules st) path\<rparr>, Proceed)
           else (st, Proceed)))"

definition findTerraformModules ::
    "filesys \<Rightarrow> string \<Rightarrow> bool \<Rightarrow> string slice \<times> error option \<times> string" where
  "findTerraformModules fs root recursive =
     (if \<not> recursive then
        (if hasTerraformFiles fs root then (Slice [root], None, [])
         else (Slice [], None, []))
      else (let (st, err) = WalkDir fs root (main_find_visit fs root) \<lparr>modules = NilSlice, stderr = []\<rparr>
            in (modules st, err, stderr st)))"

section \<open>Notions in which the properties are stated\<close>

subsection \<open>Directories\<close>


text \<open>The names under which reading a directory returns an entry, if there is one.\<close>

fun listed :: "reading \<Rightarrow> string \<Rightarrow> bool" where
  "listed Complete name = True"
| "listed (OpenFails e) name = False"
| "listed (ReadFails e names) name = (name \<in> set names)"




subsection \<open>The SBOM\<close>

text \<open>
  The SBOM before the loop over the module directories.
\<close>

definition initial_sbom :: "gotime \<Rightarrow> SBOM" where
  "initial_sbom now = \<lparr>SBOM_Version = ''1.0'', Generated = Format_RFC3339 now,
                        Tool = ''terraform-sbom'', Modules = Slice []\<rparr>"

text \<open>The module calls of a directory, in the order of the run.\<close>

definition calls_in_order :: "parser \<Rightarrow> (string \<Rightarrow> nat list) \<Rightarrow> string \<Rightarrow> ModuleCall list" where
  "calls_in_order L ord dir = map snd (range_order (ord dir) (ModuleCalls (fst (L dir))))"

text \<open>
  A recogniser for the timestamps of RFC 3339 as the layout of Go writes them:
  \<open>YYYY-MM-DDThh:mm:ss\<close> followed by \<open>Z\<close> or by a sign and \<open>hh:mm\<close>. \<open>digits k\<close>
  reads exactly \<open>k\<close> digits and \<open>lit c\<close> the character \<open>c\<close>; both return the rest.
\<close>

definition is_digit :: "char \<Rightarrow> bool" where
  "is_digit c = (c \<in> set ''0123456789'')"

fun digits :: "nat \<Rightarrow> string \<Rightarrow> string option" where
  "digits 0 s = Some s"
| "digits (Suc k) [] = None"
| "digits (Suc k) (c # s) = (if is_digit c then digits k s else None)"

fun lit :: "char \<Rightarrow> string \<Rightarrow> string option" where
  "lit c [] = None"
| "lit c (d # s) = (if c = d then Some s else None)"

definition is_zone :: "string \<Rightarrow> bool" where
  "is_zone z =
     (z = ''Z'' \<or>
      foldl Option.bind (Some z) [lit CHR ''+'', digits 2, lit CHR '':'', digits 2] = Some [] \<or>
      foldl Option.bind (Some z) [lit CHR ''-'', digits 2, lit CHR '':'', digits 2] = Some [])"

definition is_RFC3339 :: "string \<Rightarrow> bool" where
  "is_RFC3339 s =
     (case foldl Option.bind (Some s)
             [digits 4, lit CHR ''-'', digits 2, lit CHR ''-'', digits 2, lit CHR ''T'',
              digits 2, lit CHR '':'', digits 2, lit CHR '':'', digits 2] of
        None \<Rightarrow> False
      | Some z \<Rightarrow> is_zone z)"

text \<open>
  A reading of the clock with every field in its range.
\<close>

definition valid_time :: "gotime \<Rightarrow> bool" where
  "valid_time t =
     (t_year t \<le> 9999 \<and> 1 \<le> t_month t \<and> t_month t \<le> 12 \<and> 1 \<le> t_day t \<and> t_day t \<le> 31
      \<and> t_hour t < 24 \<and> t_minute t < 60 \<and> t_second t < 60 \<and> \<bar>t_offset t\<bar> < 86400)"

subsection \<open>The exports\<close>

text \<open>The fields of a module, for "a verbatim copy of a ModuleInfo field".\<close>

definition module_fields :: "ModuleInfo \<Rightarrow> string list" where
  "module_fields m = [Name m, Source m, Version m, Location m, Filename m]"

text \<open>The formats for which the switch of \<open>Export\<close> has a case.\<close>

definition supported_formats :: "string list" where
  "supported_formats = [''json'', ''xml'', ''csv'', ''tsv'', ''spdx'', ''cyclonedx'']"

subsection \<open>Predicates of the proofs\<close>

text \<open>An element as \<open>Clean\<close> keeps it: not empty, not \<open>.\<close>, without a separator.\<close>

definition kept :: "string \<Rightarrow> bool" where
  "kept e = (e \<noteq> [] \<and> e \<noteq> ''.'' \<and> CHR ''/'' \<notin> set e)"

text \<open>The elements of the cleaned path.\<close>

definition cleaned :: "string \<Rightarrow> string list" where
  "cleaned path = foldl (clean_step (rooted path)) [] (elements path)"

text \<open>The elements \<open>..\<close> of a relative cleaned path come first.\<close>

definition dots_first :: "string list \<Rightarrow> bool" where
  "dots_first es = (''..'' \<notin> set (dropWhile (\<lambda>e. e = ''..'') es))"

text \<open>A list of components and the list without some of its empty and \<open>.\<close> components.\<close>

inductive thin :: "string list \<Rightarrow> string list \<Rightarrow> bool" where
  thin_Nil: "thin [] []"
| thin_keep: "thin cs cs' \<Longrightarrow> thin (c # cs) (c # cs')"
| thin_drop: "thin cs cs' \<Longrightarrow> c = [] \<or> c = ''.'' \<Longrightarrow> thin (c # cs) cs'"

text \<open>
  A path to which a name can be joined without changing what the path before the name
  resolves to: a path in the form that \<open>Clean\<close> gives, or one without an element \<open>..\<close>.
\<close>

definition joinable :: "string \<Rightarrow> bool" where
  "joinable path = (Clean path = path \<or> ''..'' \<notin> set (Split path (CHR ''/'')))"

text \<open>The measures of the walk: the size of the directory under a path.\<close>

definition height_at :: "filesys \<Rightarrow> string \<Rightarrow> nat" where
  "height_at fs path = (case resolve fs True path of Inr (n # up) \<Rightarrow> size n | _ \<Rightarrow> 0)"

definition dir_measure :: "filesys \<Rightarrow> string \<Rightarrow> DirEntry \<Rightarrow> nat" where
  "dir_measure fs path d = (if de_IsDir d then 2 * height_at fs path + 2 else 0)"

fun entries_measure :: "filesys \<Rightarrow> string \<Rightarrow> DirEntry list \<Rightarrow> nat" where
  "entries_measure fs path [] = 0"
| "entries_measure fs path (d # ds) =
     max (dir_measure fs (Join path (de_Name d)) d) (entries_measure fs path ds)"



section \<open>Inputs of the examples\<close>

definition ex_now :: gotime where
  "ex_now = \<lparr>t_year = 2026, t_month = 11, t_day = 1, t_hour = 9, t_minute = 5, t_second = 0,
             t_offset = 3600\<rparr>"

definition ex_vpc :: ModuleInfo where
  "ex_vpc = \<lparr>Name = ''vpc'', Source = ''terraform-aws-modules/vpc/aws'', Version = ''~> 5.0'',
             Location = ''Module call at main.tf:2'', Filename = ''main.tf''\<rparr>"

definition ex_consul :: ModuleInfo where
  "ex_consul = \<lparr>Name = ''consul'', Source = ''hashicorp/consul/aws'', Version = [],
                Location = ''Module call at main.tf:9'', Filename = ''main.tf''\<rparr>"

definition ex_sbom :: SBOM where
  "ex_sbom = \<lparr>SBOM_Version = ''1.0'', Generated = ''2026-11-01T09:05:00+01:00'',
              Tool = ''terraform-sbom'', Modules = Slice [ex_vpc, ex_consul]\<rparr>"

definition ex_exportEnv :: exportEnv where
  "ex_exportEnv =
     \<lparr>os_Create_error = (\<lambda>path. None), json_Encode = (\<lambda>s. ([], None)),
      XML = (\<lambda>s. ([], None)), spdxjson_Write = (\<lambda>d. ([], None)),
      cyclonedx_Encode = (\<lambda>b. ([], None))\<rparr>"

text \<open>The same where no file can be created in the directory \<open>nodir\<close>, which does not
  exist.\<close>

definition ex_exportEnv_nodir :: exportEnv where
  "ex_exportEnv_nodir =
     ex_exportEnv\<lparr>os_Create_error :=
       (\<lambda>path. if HasPrefix path ''nodir/''
               then Some (''open '' @ path @ '': no such file or directory'') else None)\<rparr>"

text \<open>
  A project directory \<open>/proj\<close> with a configuration file, a hidden directory, a module
  directory, a symbolic link to the module directory, and a directory that holds a
  configuration file but can be neither read nor searched. Beside it, a link to the
  project directory and a link to itself. The working directory is \<open>/proj\<close>.
\<close>

definition ex_git :: node where
  "ex_git = Dir [(''main.tf'', File)] True Complete"

definition ex_mods :: node where
  "ex_mods = Dir [(''a.tf'', File)] True Complete"

definition ex_secret :: node where
  "ex_secret = Dir [(''main.tf'', File)] False (OpenFails EACCES)"

definition ex_proj :: node where
  "ex_proj = Dir [(''secret'', ex_secret), (''mods'', ex_mods), (''main.tf'', File),
     (''latest'', Symlink ''mods''), (''.git'', ex_git)] True Complete"

definition ex_tree :: node where
  "ex_tree = Dir [(''proj'', ex_proj), (''link'', Symlink ''/proj''), (''loop'', Symlink ''loop'')]
     True Complete"

definition ex_fs :: filesys where
  "ex_fs = \<lparr>tree = ex_tree, cwd = [''proj''], getwd = Inr ''/proj''\<rparr>"

definition ex_vpc_call :: ModuleCall where
  "ex_vpc_call = \<lparr>mc_Name = ''vpc'', mc_Source = ''terraform-aws-modules/vpc/aws'',
     mc_Version = ''~> 5.0'', Pos_Filename = ''/proj/main.tf'', Pos_Line = 2\<rparr>"

definition ex_consul_call :: ModuleCall where
  "ex_consul_call = \<lparr>mc_Name = ''consul'', mc_Source = ''hashicorp/consul/aws'',
     mc_Version = [], Pos_Filename = ''/proj/main.tf'', Pos_Line = 9\<rparr>"

definition ex_parser :: parser where
  "ex_parser dir =
     (if dir = ''/proj''
      then (\<lparr>ModuleCalls = [(''consul'', ex_consul_call), (''vpc'', ex_vpc_call)]\<rparr>,
            \<lparr>diag_HasErrors = False, diag_Error = []\<rparr>)
      else (\<lparr>ModuleCalls = []\<rparr>, \<lparr>diag_HasErrors = False, diag_Error = []\<rparr>))"


definition order_stored :: "string \<Rightarrow> nat list" where
  "order_stored dir = []"

definition order_swapped :: "string \<Rightarrow> nat list" where
  "order_swapped dir = [1]"

definition ex_result :: SBOM where
  "ex_result = \<lparr>SBOM_Version = ''1.0'', Generated = ''2026-11-01T09:05:00+01:00'',
     Tool = ''terraform-sbom'',
     Modules = Slice [
       \<lparr>Name = ''consul'', Source = ''hashicorp/consul/aws'', Version = [],
        Location = ''Module call at /proj/main.tf:9'', Filename = ''main.tf''\<rparr>,
       \<lparr>Name = ''vpc'', Source = ''terraform-aws-modules/vpc/aws'', Version = ''~> 5.0'',
        Location = ''Module call at /proj/main.tf:2'', Filename = ''main.tf''\<rparr>]\<rparr>"

definition ex_result_swapped :: SBOM where
  "ex_result_swapped = \<lparr>SBOM_Version = ''1.0'', Generated = ''2026-11-01T09:05:00+01:00'',
     Tool = ''terraform-sbom'',
     Modules = Slice [
       \<lparr>Name = ''vpc'', Source = ''terraform-aws-modules/vpc/aws'', Version = ''~> 5.0'',
        Location = ''Module call at /proj/main.tf:2'', Filename = ''main.tf''\<rparr>,
       \<lparr>Name = ''consul'', Source = ''hashicorp/consul/aws'', Version = [],
        Location = ''Module call at /proj/main.tf:9'', Filename = ''main.tf''\<rparr>]\<rparr>"

section \<open>Paths\<close>

lemma Split_nonempty: "Split s sep \<noteq> []"
  by (induction s) (auto split: list.splits)

lemma hd_Split: "hd (Split s sep) = takeWhile (\<lambda>c. c \<noteq> sep) s"
  by (induction s) (auto simp: Split_nonempty split: list.splits)

lemma Split_append: "Split (a @ sep # b) sep = Split a sep @ Split b sep"
  by (induction a) (auto simp: Split_nonempty split: list.splits)

lemma Split_no_sep: "sep \<notin> set n \<Longrightarrow> Split n sep = [n]"
  by (induction n) auto

lemma Split_pieces: "e \<in> set (Split s sep) \<Longrightarrow> sep \<notin> set e"
  by (induction s arbitrary: e) (auto split: if_splits list.splits)

lemma elements_kept: "e \<in> set (elements p) \<Longrightarrow> kept e"
  by (auto simp: elements_def kept_def dest: Split_pieces)

lemma elements_snoc:
  "valid_name n \<Longrightarrow> elements (p @ CHR ''/'' # n) = elements p @ [n]"
  by (simp add: elements_def Split_append Split_no_sep valid_name_def)

lemma Split_join_elements:
  "xs \<noteq> [] \<Longrightarrow> list_all kept xs \<Longrightarrow> Split (join_elements xs) (CHR ''/'') = xs"
proof (induction xs rule: join_elements.induct)
  case 1
  then show ?case by simp
next
  case (2 e)
  then show ?case by (simp add: Split_no_sep kept_def)
next
  case (3 e f es)
  then show ?case by (simp add: Split_append Split_no_sep kept_def)
qed

lemma elements_join_elements: "list_all kept xs \<Longrightarrow> elements (join_elements xs) = xs"
proof (cases "xs = []")
  case True
  then show ?thesis by (simp add: elements_def)
next
  case False
  assume k: "list_all kept xs"
  have "filter (\<lambda>e. e \<noteq> [] \<and> e \<noteq> ''.'') xs = xs"
    using k by (induction xs) (auto simp: kept_def)
  with False k show ?thesis by (simp add: elements_def Split_join_elements)
qed

lemma elements_slash_join_elements:
  "list_all kept xs \<Longrightarrow> elements (''/'' @ join_elements xs) = xs"
  using elements_join_elements [of xs] Split_append [of "[]" "CHR ''/''" "join_elements xs"]
  by (simp add: elements_def)

lemma join_elements_hd:
  "xs \<noteq> [] \<Longrightarrow> list_all kept xs \<Longrightarrow>
   join_elements xs \<noteq> [] \<and> hd (join_elements xs) \<noteq> CHR ''/''"
proof (induction xs rule: join_elements.induct)
  case 1
  then show ?case by simp
next
  case (2 e)
  then show ?case by (cases e) (auto simp: kept_def)
next
  case (3 e f es)
  then show ?case by (cases e) (auto simp: kept_def)
qed

lemma clean_step_kept:
  "list_all kept out \<Longrightarrow> kept e \<Longrightarrow> list_all kept (clean_step b out e)"
  by (auto simp: clean_step_def list_all_iff dest: in_set_butlastD)

lemma foldl_clean_step_kept:
  "list_all kept out \<Longrightarrow> list_all kept es \<Longrightarrow> list_all kept (foldl (clean_step b) out es)"
  by (induction es arbitrary: out) (simp_all add: clean_step_kept)

lemma clean_step_True_no_dotdot:
  "''..'' \<notin> set out \<Longrightarrow> ''..'' \<notin> set (clean_step True out e)"
  by (auto simp: clean_step_def dest: in_set_butlastD)

lemma foldl_clean_step_True_no_dotdot:
  "''..'' \<notin> set out \<Longrightarrow> ''..'' \<notin> set (foldl (clean_step True) out es)"
  by (induction es arbitrary: out) (simp_all add: clean_step_True_no_dotdot)

lemma foldl_clean_step_plain:
  "''..'' \<notin> set es \<Longrightarrow> foldl (clean_step b) out es = out @ es"
  by (induction es arbitrary: out) (auto simp: clean_step_def)

lemma Clean_Join_elements:
  assumes p: "p \<noteq> []" and n: "valid_name n"
  defines "st \<equiv> foldl (clean_step (rooted p)) [] (elements p)"
  shows "Join p n = (if rooted p then ''/'' else []) @ join_elements (st @ [n])"
    and "list_all kept (st @ [n])"
proof -
  let ?q = "p @ CHR ''/'' # n"
  have rq: "rooted ?q = rooted p" using p by (cases p) (simp_all add: rooted_def)
  have kn: "kept n" using n by (simp add: valid_name_def kept_def)
  have ks: "list_all kept st"
    unfolding st_def by (rule foldl_clean_step_kept) (simp_all add: list_all_iff elements_kept)
  show k: "list_all kept (st @ [n])" using ks kn by simp
  have f: "foldl (clean_step (rooted p)) [] (elements ?q) = st @ [n]"
    using n by (simp add: elements_snoc st_def clean_step_def valid_name_def)
  have ne: "join_elements (st @ [n]) \<noteq> []"
    using join_elements_hd [OF _ k] by simp
  show "Join p n = (if rooted p then ''/'' else []) @ join_elements (st @ [n])"
    using p ne by (simp add: Join_def Clean_def rq f Let_def)
qed

lemma Join_nonempty: "p \<noteq> [] \<Longrightarrow> valid_name n \<Longrightarrow> Join p n \<noteq> []"
  using Clean_Join_elements [of p n] join_elements_hd [of "foldl (clean_step (rooted p)) [] (elements p) @ [n]"]
  by simp

lemma dots_first_snoc_dots:
  "dots_first (out @ [''..'']) \<Longrightarrow> out = [] \<or> last out = ''..''"
proof (induction out)
  case Nil
  then show ?case by simp
next
  case (Cons a out)
  then show ?case by (auto simp: dots_first_def split: if_splits)
qed

lemma dots_first_all:
  "dots_first out \<Longrightarrow> out \<noteq> [] \<Longrightarrow> last out = ''..'' \<Longrightarrow> dots_first (out @ [''..''])"
proof (induction out)
  case Nil
  then show ?case by simp
next
  case (Cons a out)
  show ?case
  proof (cases "a = ''..''")
    case True
    show ?thesis
    proof (cases "out = []")
      case True
      with \<open>a = ''..''\<close> show ?thesis by (simp add: dots_first_def)
    next
      case False
      with Cons True show ?thesis by (simp add: dots_first_def)
    qed
  next
    case False
    with Cons.prems have "''..'' \<notin> set (a # out)" by (simp add: dots_first_def)
    moreover have "last (a # out) \<in> set (a # out)" by (rule last_in_set) simp
    ultimately show ?thesis using Cons.prems by simp
  qed
qed

lemma dots_first_snoc:
  "dots_first out \<Longrightarrow> e \<noteq> ''..'' \<Longrightarrow> dots_first (out @ [e])"
  by (induction out) (auto simp: dots_first_def split: if_splits)

lemma dots_first_butlast:
  "dots_first out \<Longrightarrow> dots_first (butlast out)"
  by (induction out) (auto simp: dots_first_def split: if_splits dest: in_set_butlastD)

lemma dots_first_prefix: "dots_first (out @ [e]) \<Longrightarrow> dots_first out"
  using dots_first_butlast [of "out @ [e]"] by simp

lemma clean_step_False_dots_first:
  assumes "dots_first out"
  shows "dots_first (clean_step False out e)"
proof (cases "e = ''..''")
  case False
  with assms show ?thesis by (simp add: clean_step_def dots_first_snoc)
next
  case True
  show ?thesis
  proof (cases "out \<noteq> [] \<and> last out \<noteq> ''..''")
    case True
    with \<open>e = ''..''\<close> assms show ?thesis by (simp add: clean_step_def dots_first_butlast)
  next
    case False
    show ?thesis
    proof (cases "out = []")
      case True
      with \<open>e = ''..''\<close> show ?thesis by (simp add: clean_step_def dots_first_def)
    next
      case ne: False
      with False have "last out = ''..''" by simp
      with ne assms \<open>e = ''..''\<close> show ?thesis by (simp add: clean_step_def dots_first_all)
    qed
  qed
qed

lemma foldl_clean_step_False_dots_first:
  "dots_first out \<Longrightarrow> dots_first (foldl (clean_step False) out es)"
  by (induction es arbitrary: out) (simp_all add: clean_step_False_dots_first)

lemma dots_first_fixed: "dots_first es \<Longrightarrow> foldl (clean_step False) [] es = es"
proof (induction es rule: rev_induct)
  case Nil
  then show ?case by simp
next
  case (snoc e es)
  then have ih: "foldl (clean_step False) [] es = es"
    using dots_first_prefix by blast
  then have f: "foldl (clean_step False) [] (es @ [e]) = clean_step False es e" by simp
  show ?case
  proof (cases "e = ''..''")
    case True
    with snoc.prems have "es = [] \<or> last es = ''..''" using dots_first_snoc_dots by blast
    with True show ?thesis unfolding f by (auto simp: clean_step_def)
  next
    case False
    then show ?thesis unfolding f by (simp add: clean_step_def)
  qed
qed

lemma clean_step_fixed:
  "foldl (clean_step r) [] (foldl (clean_step r) [] es) = foldl (clean_step r) [] es"
proof (cases r)
  case True
  have "''..'' \<notin> set (foldl (clean_step True) [] es)"
    by (rule foldl_clean_step_True_no_dotdot) simp
  then show ?thesis using True foldl_clean_step_plain [of "foldl (clean_step True) [] es" True "[]"]
    by simp
next
  case False
  have "dots_first (foldl (clean_step False) [] es)"
    by (rule foldl_clean_step_False_dots_first) (simp add: dots_first_def)
  then show ?thesis using False by (simp add: dots_first_fixed)
qed

lemma cleaned_kept: "list_all kept (cleaned p)"
  unfolding cleaned_def by (rule foldl_clean_step_kept) (simp_all add: list_all_iff elements_kept)

lemma Clean_cleaned:
  "Clean p = (if \<not> rooted p \<and> cleaned p = [] then ''.''
              else (if rooted p then ''/'' else []) @ join_elements (cleaned p))"
proof (cases "p = []")
  case True
  then show ?thesis by (simp add: Clean_def cleaned_def rooted_def elements_def)
next
  case False
  have "cleaned p \<noteq> [] \<Longrightarrow> join_elements (cleaned p) \<noteq> []"
    using join_elements_hd [OF _ cleaned_kept] by blast
  then show ?thesis using False
    by (auto simp: Clean_def cleaned_def [symmetric] Let_def)
qed

lemma Clean_nonempty: "Clean p \<noteq> []"
  using join_elements_hd [OF _ cleaned_kept, of p] by (auto simp: Clean_cleaned)

lemma rooted_Clean: "rooted (Clean p) = rooted p"
  using join_elements_hd [OF _ cleaned_kept, of p]
  by (auto simp: Clean_cleaned rooted_def)

lemma elements_Clean: "elements (Clean p) = cleaned p"
  using elements_join_elements [OF cleaned_kept, of p] elements_slash_join_elements [OF cleaned_kept, of p]
  by (auto simp: Clean_cleaned elements_def)

lemma cleaned_Clean: "cleaned (Clean p) = cleaned p"
  unfolding cleaned_def [of "Clean p"] rooted_Clean elements_Clean
  by (simp add: cleaned_def clean_step_fixed)

lemma Clean_idem: "Clean (Clean p) = Clean p"
  unfolding Clean_cleaned [of "Clean p"] rooted_Clean cleaned_Clean
  by (simp add: Clean_cleaned)

lemma Join_Clean: "Clean (Join a b) = Join a b \<or> Join a b = []"
  by (simp add: Join_def Clean_idem)

lemma cleaned_Join:
  assumes p: "p \<noteq> []" and n: "valid_name n"
  shows "rooted (Join p n) = rooted p"
    and "cleaned (Join p n) = cleaned p @ [n]"
    and "Split (Join p n) (CHR ''/'') = (if rooted p then [[]] else []) @ cleaned p @ [n]"
proof -
  note j = Clean_Join_elements [OF p n, folded cleaned_def]
  have ne: "join_elements (cleaned p @ [n]) \<noteq> []"
    and hd: "hd (join_elements (cleaned p @ [n])) \<noteq> CHR ''/''"
    using join_elements_hd [OF _ j(2)] by simp_all
  show r: "rooted (Join p n) = rooted p"
    using ne hd by (simp add: j(1) rooted_def)
  have e: "elements (Join p n) = cleaned p @ [n]"
    using elements_join_elements [OF j(2)] elements_slash_join_elements [OF j(2)]
    by (simp add: j(1))
  have nd: "n \<noteq> ''..''" using n by (simp add: valid_name_def)
  have "foldl (clean_step (rooted p)) [] (cleaned p) = cleaned p"
    by (simp add: cleaned_def clean_step_fixed)
  then show "cleaned (Join p n) = cleaned p @ [n]"
    using nd by (simp add: cleaned_def [of "Join p n"] r e clean_step_def)
  have sp: "Split (join_elements (cleaned p @ [n])) (CHR ''/'') = cleaned p @ [n]"
    by (rule Split_join_elements [OF _ j(2)]) simp
  show "Split (Join p n) (CHR ''/'') = (if rooted p then [[]] else []) @ cleaned p @ [n]"
    using sp Split_append [of "[]" "CHR ''/''" "join_elements (cleaned p @ [n])"]
    by (simp add: j(1))
qed

lemma Clean_fixed_Split:
  assumes "Clean p = p"
  shows "(p = ''.'' \<and> \<not> rooted p \<and> cleaned p = [])
       \<or> (p = ''/'' \<and> rooted p \<and> cleaned p = [])
       \<or> (cleaned p \<noteq> [] \<and> Split p (CHR ''/'') = (if rooted p then [[]] else []) @ cleaned p)"
proof (cases "cleaned p = []")
  case True
  with assms show ?thesis by (auto simp: Clean_cleaned split: if_splits)
next
  case False
  have sp: "Split (join_elements (cleaned p)) (CHR ''/'') = cleaned p"
    by (rule Split_join_elements [OF False cleaned_kept])
  have "p = (if rooted p then ''/'' else []) @ join_elements (cleaned p)"
    using assms False by (simp add: Clean_cleaned split: if_splits)
  then have "Split p (CHR ''/'') =
      Split ((if rooted p then ''/'' else []) @ join_elements (cleaned p)) (CHR ''/'')"
    by simp
  also have "\<dots> = (if rooted p then [[]] else []) @ cleaned p"
    using sp Split_append [of "[]" "CHR ''/''" "join_elements (cleaned p)"] by simp
  finally show ?thesis using False by simp
qed

text \<open>\<open>Clean\<close> and \<open>Join\<close> bring no byte into a path but the separator and the dot.\<close>

lemma Split_chars: "e \<in> set (Split s sep) \<Longrightarrow> set e \<subseteq> set s"
proof (induction s arbitrary: e)
  case Nil
  then show ?case by simp
next
  case (Cons a s)
  show ?case
  proof (cases "a = sep")
    case True
    with Cons show ?thesis by auto
  next
    case False
    obtain p ps where sp: "Split s sep = p # ps"
      using Split_nonempty [of s sep] by (cases "Split s sep") auto
    from Cons.IH [of p] sp have "set p \<subseteq> set s" by simp
    moreover from Cons.IH sp have "\<And>q. q \<in> set ps \<Longrightarrow> set q \<subseteq> set s" by simp
    ultimately show ?thesis using Cons.prems False sp by auto
  qed
qed

lemma join_elements_chars:
  "c \<in> set (join_elements xs) \<Longrightarrow> c = CHR ''/'' \<or> (\<exists>e \<in> set xs. c \<in> set e)"
  by (induction xs rule: join_elements.induct) auto

lemma foldl_clean_step_subset:
  "set (foldl (clean_step r) out es) \<subseteq> set out \<union> set es"
proof (induction es arbitrary: out)
  case Nil
  then show ?case by simp
next
  case (Cons e es)
  have "set (clean_step r out e) \<subseteq> set out \<union> {e}"
    by (auto simp: clean_step_def dest: in_set_butlastD)
  with Cons [of "clean_step r out e"] show ?case by auto
qed

lemma cleaned_chars: "e \<in> set (cleaned x) \<Longrightarrow> set e \<subseteq> set x"
proof -
  assume "e \<in> set (cleaned x)"
  with foldl_clean_step_subset [of "rooted x" "[]" "elements x"] have "e \<in> set (elements x)"
    by (auto simp: cleaned_def)
  then show ?thesis by (auto simp: elements_def dest: Split_chars)
qed

lemma Clean_chars: "c \<in> set (Clean x) \<Longrightarrow> c \<in> set x \<or> c = CHR ''.'' \<or> c = CHR ''/''"
  by (auto simp: Clean_cleaned split: if_splits dest!: join_elements_chars dest: cleaned_chars)

lemma Join_no_zero:
  "CHR 0x00 \<notin> set p \<Longrightarrow> CHR 0x00 \<notin> set n \<Longrightarrow> CHR 0x00 \<notin> set (Join p n)"
  by (auto simp: Join_def dest!: Clean_chars)

section \<open>Name resolution\<close>

lemma namei_snoc:
  "namei root k st cs f0 = Inr (Dir es s rd # up) \<Longrightarrow> entry_of es n = Some c \<Longrightarrow>
   is_dir c \<Longrightarrow>
   namei root k st (cs @ [n]) fl = (if s then Inr (c # Dir es s rd # up) else Inl EACCES)"
proof (induction root k st cs f0 rule: namei.induct)
  case (1 root links stack follow)
  then show ?case by (cases c) (auto simp: entry_of_def valid_name_def split: if_splits)
next
  case (2 root links c cs follow)
  then show ?case by simp
next
  case (3 root links cur above c0 cs follow)
  note prem = "3.prems"
  show ?case
  proof (cases cur)
    case File
    with prem show ?thesis by simp
  next
    case (Symlink t)
    with prem show ?thesis by simp
  next
    case (Dir entries search reading)
    show ?thesis
    proof (cases "c0 = []")
      case True
      with Dir prem "3.IH"(1) show ?thesis by simp
    next
      case ne: False
      show ?thesis
      proof (cases search)
        case False
        with Dir ne prem show ?thesis by simp
      next
        case True
        consider "c0 = ''.''" | "c0 = ''..''" | "c0 \<noteq> ''.''" "c0 \<noteq> ''..''" by blast
        then show ?thesis
        proof cases
          case 1
          with Dir ne True prem "3.IH"(2) show ?thesis by simp
        next
          case 2
          with Dir ne True prem "3.IH"(3) [of entries search reading] show ?thesis
            by (cases "above = []") simp_all
        next
          case 3
          show ?thesis
          proof (cases "entry_of entries c0")
            case None
            with Dir ne True 3 prem show ?thesis by simp
          next
            case (Some child)
            show ?thesis
            proof (cases child)
              case File
              with Some Dir ne True 3 prem "3.IH" show ?thesis by simp
            next
              case (Dir x y z)
              with Some \<open>cur = Dir entries search reading\<close> ne True 3 prem "3.IH" show ?thesis by simp
            next
              case (Symlink target)
              show ?thesis
              proof (cases links)
                case 0
                with Symlink Some Dir ne True 3 prem show ?thesis by (simp split: if_splits)
              next
                case (Suc k)
                show ?thesis
                proof (cases "target = []")
                  case True
                  with Suc Symlink Some Dir ne \<open>search\<close> 3 prem show ?thesis by (simp split: if_splits)
                next
                  case False
                  have nl: "\<not> (cs = [] \<and> \<not> follow)"
                    using Suc Symlink Some Dir ne True 3 prem by (auto split: if_splits)
                  have "namei root k (if rooted target then [root] else cur # above)
                          (Split target (CHR ''/'') @ cs) follow = Inr (Spec2Isabelle.Dir es s rd # up)"
                    using Suc Symlink Some Dir ne True 3 prem(1) False nl by (auto split: if_splits)
                  from "3.IH"(5) [OF Dir ne _ 3(1) 3(2) Some Symlink nl Suc False this prem(2,3)] True
                  show ?thesis
                    using Suc Symlink Some Dir ne True 3 False nl by (auto split: if_splits)
                qed
              qed
            qed
          qed
        qed
      qed
    qed
  qed
qed

lemma thin_refl: "thin cs cs"
  by (induction cs) (auto intro: thin.intros)

lemma thin_append_same: "thin cs cs' \<Longrightarrow> thin (xs @ cs) (xs @ cs')"
  by (induction xs) (auto intro: thin.intros)

lemma thin_filter: "thin cs (filter (\<lambda>e. e \<noteq> [] \<and> e \<noteq> ''.'') cs)"
  by (induction cs) (auto intro: thin.intros)

lemma thin_Nil_left: "thin [] cs' \<Longrightarrow> cs' = []"
  by (erule thin.cases) simp_all

lemma thin_Cons_left:
  "thin (c # cs) cs' \<Longrightarrow>
   (\<exists>cs''. cs' = c # cs'' \<and> thin cs cs'') \<or> ((c = [] \<or> c = ''.'') \<and> thin cs cs')"
  by (erule thin.cases) simp_all

text \<open>
  A resolution that ends at a directory ends at the same directory when empty and \<open>.\<close>
  components are left out and the last link is followed.
\<close>

lemma namei_thin:
  "namei root k st cs f0 = Inr (Dir es s rd # up) \<Longrightarrow> thin cs cs' \<Longrightarrow>
   namei root k st cs' True = Inr (Dir es s rd # up)"
proof (induction root k st cs f0 arbitrary: cs' rule: namei.induct)
  case (1 root links stack follow)
  then show ?case by (auto dest: thin_Nil_left)
next
  case (2 root links c cs follow)
  then show ?case by simp
next
  case (3 root links cur above c0 cs follow)
  note prem = "3.prems"(1)
  from prem obtain entries search reading where cur: "cur = Dir entries search reading"
    by (cases cur) simp_all
  from thin_Cons_left [OF "3.prems"(2)] consider
      (keep) cs'' where "cs' = c0 # cs''" "thin cs cs''"
    | (drop) "c0 = [] \<or> c0 = ''.''" "thin cs cs'"
    by blast
  then show ?case
  proof cases
    case drop
    show ?thesis
    proof (cases "c0 = []")
      case True
      with cur prem have "namei root links (cur # above) cs follow = Inr (Dir es s rd # up)" by simp
      from "3.IH"(1) [OF cur True this drop(2)] show ?thesis .
    next
      case False
      with drop have dot: "c0 = ''.''" by simp
      with cur prem have s: "search"
        and "namei root links (cur # above) cs follow = Inr (Dir es s rd # up)"
        by (simp_all split: if_splits)
      from "3.IH"(2) [OF cur False _ dot this(2) drop(2)] s show ?thesis by simp
    qed
  next
    case keep
    show ?thesis
    proof (cases "c0 = []")
      case True
      with cur prem have "namei root links (cur # above) cs follow = Inr (Dir es s rd # up)" by simp
      from "3.IH"(1) [OF cur True this keep(2)] show ?thesis
        using cur True keep(1) by simp
    next
      case ne: False
      from ne cur prem have s: "search" by (simp split: if_splits)
      consider "c0 = ''.''" | "c0 = ''..''" | "c0 \<noteq> ''.''" "c0 \<noteq> ''..''" by blast
      then show ?thesis
      proof cases
        case 1
        with cur prem ne s
        have "namei root links (cur # above) cs follow = Inr (Dir es s rd # up)" by simp
        from "3.IH"(2) [OF cur ne _ 1 this keep(2)] s show ?thesis
          using cur ne 1 keep(1) by simp
      next
        case 2
        with cur prem ne s
        have "namei root links (if above = [] then [cur] else above) cs follow =
            Inr (Dir es s rd # up)" by (auto split: if_splits)
        from "3.IH"(3) [OF cur ne _ _ 2 this keep(2)] s show ?thesis
          using cur ne 2 keep(1) by (auto split: if_splits)
      next
        case 3
        show ?thesis
        proof (cases "entry_of entries c0")
          case None
          with cur ne s 3 prem show ?thesis by simp
        next
          case (Some child)
          show ?thesis
          proof (cases child)
            case File
            with Some cur ne s 3 prem
            have "namei root links (child # cur # above) cs follow = Inr (Dir es s rd # up)"
              by simp
            from "3.IH"(4) [OF cur ne _ 3 Some File this [unfolded File] keep(2)] s show ?thesis
              using Some File cur ne 3 keep(1) by simp
          next
            case (Dir x y z)
            with Some cur ne s 3 prem
            have "namei root links (child # cur # above) cs follow = Inr (Spec2Isabelle.Dir es s rd # up)"
              by simp
            from "3.IH"(6) [OF cur ne _ 3 Some Dir this [unfolded Dir] keep(2)] s show ?thesis
              using Some Dir cur ne 3 keep(1) by simp
          next
            case (Symlink target)
            have nl: "\<not> (cs = [] \<and> \<not> follow)"
              using Symlink Some cur ne s 3 prem by (auto split: if_splits)
            show ?thesis
            proof (cases links)
              case 0
              with Symlink Some cur ne s 3 prem nl show ?thesis by (simp split: if_splits)
            next
              case (Suc j)
              show ?thesis
              proof (cases "target = []")
                case True
                with Suc Symlink Some cur ne s 3 prem nl show ?thesis by (simp split: if_splits)
              next
                case False
                have r: "namei root j (if rooted target then [root] else cur # above)
                        (Split target (CHR ''/'') @ cs) follow = Inr (Spec2Isabelle.Dir es s rd # up)"
                  using Suc Symlink Some cur ne s 3 prem False nl by (auto split: if_splits)
                have t: "thin (Split target (CHR ''/'') @ cs) (Split target (CHR ''/'') @ cs'')"
                  by (rule thin_append_same [OF keep(2)])
                from "3.IH"(5) [OF cur ne _ 3 Some Symlink nl Suc False r t] s
                show ?thesis
                  using Suc Symlink Some cur ne 3 False keep(1) by (auto split: if_splits)
              qed
            qed
          qed
        qed
      qed
    qed
  qed
qed


lemma entry_of_valid: "entry_of es n = Some c \<Longrightarrow> valid_name n"
  by (simp add: entry_of_def split: if_splits)

lemma entry_of_in_set: "entry_of es n = Some c \<Longrightarrow> (n, c) \<in> set es"
  by (auto simp: entry_of_def split: if_splits dest: map_of_SomeD)

lemma thin_Split_cleaned:
  assumes j: "joinable p" and p: "p \<noteq> []"
  shows "thin (Split p (CHR ''/'')) ((if rooted p then [[]] else []) @ cleaned p)"
proof (cases "Clean p = p")
  case True
  from Clean_fixed_Split [OF True] consider
      "p = ''.''" "\<not> rooted p" "cleaned p = []"
    | "p = ''/''" "rooted p" "cleaned p = []"
    | "cleaned p \<noteq> []" "Split p (CHR ''/'') = (if rooted p then [[]] else []) @ cleaned p"
    by blast
  then show ?thesis
  proof cases
    case 1
    then show ?thesis by (auto intro: thin.intros)
  next
    case 2
    then show ?thesis by (auto intro: thin.intros)
  next
    case 3
    then show ?thesis by (simp add: thin_refl)
  qed
next
  case False
  with j have nd: "''..'' \<notin> set (Split p (CHR ''/''))" by (simp add: joinable_def)
  then have "''..'' \<notin> set (elements p)" by (simp add: elements_def)
  then have c: "cleaned p = elements p"
    using foldl_clean_step_plain [of "elements p" "rooted p" "[]"] by (simp add: cleaned_def)
  show ?thesis
  proof (cases "rooted p")
    case True
    then obtain q where q: "p = CHR ''/'' # q" using p by (cases p) (simp_all add: rooted_def)
    have s: "Split p (CHR ''/'') = [] # Split q (CHR ''/'')" by (simp add: q)
    have "thin ([] # Split q (CHR ''/''))
            ([] # filter (\<lambda>e. e \<noteq> [] \<and> e \<noteq> ''.'') (Split q (CHR ''/'')))"
      by (rule thin_keep [OF thin_filter])
    then show ?thesis using True by (simp add: c elements_def s)
  next
    case False
    then show ?thesis by (simp add: c elements_def thin_filter)
  qed
qed

text \<open>
  The path that \<open>WalkDir\<close> builds for an entry resolves to the entry: joining the name
  of a directory to a path that resolves to the directory above it gives a path that
  resolves to the directory of that name, when the directory above may be searched.
\<close>

lemma resolve_Join:
  assumes j: "joinable p"
    and r: "resolve fs f0 p = Inr (Dir es s rd # up)"
    and m: "entry_of es n = Some c" and d: "is_dir c"
  shows "resolve fs fl (Join p n) = (if s then Inr (c # Dir es s rd # up) else Inl EACCES)"
proof -
  note n = entry_of_valid [OF m]
  from r have p: "p \<noteq> []" and z: "CHR 0x00 \<notin> set p"
    by (auto simp: resolve_def split: if_splits)
  from r p z obtain st where st: "start fs p = Some st"
    and nm: "namei (tree fs) MAXSYMLINKS st (Split p (CHR ''/'')) f0 = Inr (Dir es s rd # up)"
    by (auto simp: resolve_def split: option.splits)
  note cj = cleaned_Join [OF p n]
  have st': "start fs (Join p n) = Some st" using st by (simp add: start_def cj(1))
  have ne: "Join p n \<noteq> []" by (rule Join_nonempty [OF p n])
  have zj: "CHR 0x00 \<notin> set (Join p n)"
    using Join_no_zero [OF z] n by (simp add: valid_name_def)
  have g: "resolve fs fl (Join p n) =
      namei (tree fs) MAXSYMLINKS st (((if rooted p then [[]] else []) @ cleaned p) @ [n]) fl"
    using ne zj st' by (simp add: resolve_def cj(3))
  from namei_thin [OF nm thin_Split_cleaned [OF j p]]
  have "namei (tree fs) MAXSYMLINKS st ((if rooted p then [[]] else []) @ cleaned p) True =
      Inr (Dir es s rd # up)" .
  from namei_snoc [OF this m d, of fl] show ?thesis unfolding g .
qed

lemma joinable_Join: "joinable (Join a b) \<or> Join a b = []"
  using Join_Clean [of a b] by (auto simp: joinable_def)


section \<open>The walk terminates\<close>

lemma size_child: "(n, c) \<in> set es \<Longrightarrow> size c < size (Dir es s rd)"
  by (induction es) auto

lemma os_ReadDir_entries:
  assumes "os_ReadDir fs path = (dirs, err)" and "d1 \<in> set dirs"
  shows "\<exists>es s r up n. resolve fs True path = Inr (Dir es s r # up) \<and> n \<in> set (entry_names es)
           \<and> listed r n \<and> d1 = dir_entry es n"
  using assms
  by (auto simp: os_ReadDir_def split: sum.splits list.splits node.splits reading.splits)


lemma height_at_Join:
  assumes cl: "joinable path \<or> path = []"
    and rd: "os_ReadDir fs path = (dirs, err)"
    and d1: "d1 \<in> set dirs" and isd: "de_IsDir d1"
  shows "height_at fs (Join path (de_Name d1)) < height_at fs path"
proof -
  from os_ReadDir_entries [OF rd d1] obtain es s r up n where
    r: "resolve fs True path = Inr (Dir es s r # up)"
    and d1n: "d1 = dir_entry es n"
    by blast
  from isd d1n obtain c where m: "entry_of es n = Some c" and c: "is_dir c"
    by (auto simp: dir_entry_def split: option.splits)
  from r have "path \<noteq> []" by (auto simp: resolve_def split: if_splits)
  with cl have j: "joinable path" by simp
  have nm: "de_Name d1 = n" using d1n by (simp add: dir_entry_def)
  have "size c < size (Dir es s r)" by (rule size_child [OF entry_of_in_set [OF m]])
  then show ?thesis
    using resolve_Join [OF j r m c, of True] r
    by (auto simp: height_at_def nm)
qed

lemma entries_measure_le:
  "(\<And>d. d \<in> set ds \<Longrightarrow> de_IsDir d \<Longrightarrow> height_at fs (Join path (de_Name d)) < h) \<Longrightarrow>
   entries_measure fs path ds \<le> 2 * h"
proof (induction ds)
  case Nil
  then show ?case by simp
next
  case (Cons a ds)
  have "entries_measure fs path ds \<le> 2 * h"
    by (rule Cons.IH) (simp add: Cons.prems)
  moreover have "de_IsDir a \<Longrightarrow> height_at fs (Join path (de_Name a)) < h"
    using Cons.prems by simp
  ultimately show ?case by (auto simp: dir_measure_def)
qed

text \<open>
  The walk terminates on every file system and from every path: the directory under the
  path of an entry is smaller than the directory under the path it was read from, once
  the path is one that \<open>Join\<close> has built.
\<close>

termination walkDir
proof (relation "measures
     [\<lambda>x. case x of
             Inl (fs, fn, path, d, st) \<Rightarrow>
               (if de_IsDir d \<and> \<not> joinable path \<and> path \<noteq> [] then 1 else 0)
           | Inr (fs, fn, path, ds, st) \<Rightarrow> 0,
      \<lambda>x. case x of
             Inl (fs, fn, path, d, st) \<Rightarrow> dir_measure fs path d
           | Inr (fs, fn, path, ds, st) \<Rightarrow> Suc (entries_measure fs path ds),
      \<lambda>x. case x of
             Inl (fs, fn, path, d, st) \<Rightarrow> 0
           | Inr (fs, fn, path, ds, st) \<Rightarrow> length ds]", goal_cases)
  case 1
  show ?case by simp
next
  case (2 fs fn path d st st1 r dirs err)
  then have rd: "os_ReadDir fs path = (dirs, err)" and isd: "de_IsDir d" by simp_all
  show ?case
  proof (cases "\<not> joinable path \<and> path \<noteq> []")
    case True
    with isd show ?thesis by simp
  next
    case False
    then have cl: "joinable path \<or> path = []" by blast
    have "entries_measure fs path dirs \<le> 2 * height_at fs path"
      by (rule entries_measure_le) (rule height_at_Join [OF cl rd])
    with isd False show ?thesis by (simp add: dir_measure_def)
  qed
next
  case (3 fs fn path d st st1 r dirs err e st2 r2)
  then have rd: "os_ReadDir fs path = (dirs, err)" and isd: "de_IsDir d" by simp_all
  show ?case
  proof (cases "\<not> joinable path \<and> path \<noteq> []")
    case True
    with isd show ?thesis by simp
  next
    case False
    then have cl: "joinable path \<or> path = []" by blast
    have "entries_measure fs path dirs \<le> 2 * height_at fs path"
      by (rule entries_measure_le) (rule height_at_Join [OF cl rd])
    with isd False show ?thesis by (simp add: dir_measure_def)
  qed
next
  case (4 fs fn path d1 rest st)
  from joinable_Join [of path "de_Name d1"] show ?case by auto
next
  case (5 fs fn path d1 rest st st1 r)
  show ?case by auto
qed


declare walkDir.simps [simp del]

section \<open>The directory search\<close>







text \<open>
  The function given to \<open>WalkDir\<close> returns nil or \<open>SkipDir\<close>, and \<open>SkipDir\<close> for a
  directory only, so the walk returns nil.
\<close>

lemma find_visit_Visit:
  "find_visit fs root st path (Visit d) =
     (if de_IsDir d \<and> HasPrefix (de_Name d) ''.'' \<and> path \<noteq> root then (st, SkipDir)
      else if de_IsDir d \<and> HasTerraformFiles fs path
        then (st\<lparr>modules := append_slice (modules st) path\<rparr>, Proceed)
      else (st, Proceed))"
  by (simp add: find_visit_def)

lemma find_visit_ReadFailed:
  "find_visit fs root st path (ReadFailed d err) =
     (st\<lparr>stderr := stderr st @ ''Warning: skipping '' @ path @ '' due to error: '' @
            PathError_Error err @ [CHR 0x0A]\<rparr>, Proceed)"
  by (simp add: find_visit_def)

lemma walkDir_find_nondir:
  "\<not> de_IsDir d \<Longrightarrow> walkDir fs (find_visit fs root) path d st = (st, Proceed)"
  by (simp add: walkDir.simps find_visit_Visit)

lemma walkDir_find_hidden:
  "de_IsDir d \<Longrightarrow> HasPrefix (de_Name d) ''.'' \<Longrightarrow> path \<noteq> root \<Longrightarrow>
   walkDir fs (find_visit fs root) path d st = (st, Proceed)"
  by (simp add: walkDir.simps find_visit_Visit)

lemma walkDir_find_dir:
  assumes "de_IsDir d" and "\<not> (HasPrefix (de_Name d) ''.'' \<and> path \<noteq> root)"
    and "st1 = (if HasTerraformFiles fs path then st\<lparr>modules := append_slice (modules st) path\<rparr>
                else st)"
  shows "walkDir fs (find_visit fs root) path d st =
     (case os_ReadDir fs path of
        (dirs, None) \<Rightarrow> walkEntries fs (find_visit fs root) path dirs st1
      | (dirs, Some err) \<Rightarrow>
          walkEntries fs (find_visit fs root) path dirs
            (st1\<lparr>stderr := stderr st @ ''Warning: skipping '' @ path @ '' due to error: '' @
                PathError_Error err @ [CHR 0x0A]\<rparr>))"
  using assms
  by (auto simp: walkDir.simps [of fs "find_visit fs root" path d st] find_visit_Visit
        find_visit_ReadFailed split: prod.splits option.splits)

lemma walk_find_Proceed:
  "snd (walkDir fs (find_visit fs root) path d st) = Proceed"
  "snd (walkEntries fs (find_visit fs root) path ds st) = Proceed"
proof (induction fs "find_visit fs root" path d st and fs "find_visit fs root" path ds st
    rule: walkDir_walkEntries.induct)
  case (1 fs path d st)
  show ?case
  proof (cases "de_IsDir d")
    case False
    then show ?thesis by (simp add: walkDir_find_nondir)
  next
    case True
    show ?thesis
    proof (cases "HasPrefix (de_Name d) ''.'' \<and> path \<noteq> root")
      case h: True
      with True show ?thesis by (simp add: walkDir_find_hidden)
    next
      case False
      define st1 where "st1 = (if HasTerraformFiles fs path
          then st\<lparr>modules := append_slice (modules st) path\<rparr> else st)"
      have se: "stderr st1 = stderr st" by (simp add: st1_def)
      have v: "find_visit fs root st path (Visit d) = (st1, Proceed)"
        using True False by (auto simp: find_visit_Visit st1_def)
      obtain dirs err where rd: "os_ReadDir fs path = (dirs, err)" by (cases "os_ReadDir fs path")
      note w = walkDir_find_dir [OF True False st1_def]
      show ?thesis
      proof (cases err)
        case None
        from "1.hyps"(1) [OF v [symmetric] refl _ rd [symmetric] None] True
        show ?thesis
          unfolding w rd None by simp
      next
        case (Some e)
        define st2 where "st2 = st1\<lparr>stderr := stderr st @ ''Warning: skipping '' @ path @
            '' due to error: '' @ PathError_Error e @ [CHR 0x0A]\<rparr>"
        have v2: "find_visit fs root st1 path (ReadFailed (Some d) e) = (st2, Proceed)"
          by (simp add: find_visit_ReadFailed st2_def se)
        from "1.hyps"(2) [OF v [symmetric] refl _ rd [symmetric] Some v2 [symmetric] refl] True
        show ?thesis
          unfolding w rd Some st2_def by simp
      qed
    qed
  qed
next
  case (2 fs path st)
  show ?case by simp
next
  case (3 fs path d1 rest st)
  obtain st1 r where w: "walkDir fs (find_visit fs root) (Join path (de_Name d1)) d1 st = (st1, r)"
    by (cases "walkDir fs (find_visit fs root) (Join path (de_Name d1)) d1 st")
  with "3.hyps"(1) have r: "r = Proceed" by simp
  from "3.hyps"(2) [OF w [symmetric] r] w r show ?case by simp
qed

lemma FindTerraformModules_no_error: "fst (snd (FindTerraformModules fs root recursive)) = None"
proof (cases recursive)
  case False
  then show ?thesis by (simp add: FindTerraformModules_def)
next
  case True
  show ?thesis
  proof (cases "os_Lstat fs root")
    case (Inl e)
    with True show ?thesis
      by (simp add: FindTerraformModules_def WalkDir_def find_visit_def split: prod.splits)
  next
    case (Inr info)
    obtain st r where w: "walkDir fs (find_visit fs root) root info
        \<lparr>modules = NilSlice, stderr = []\<rparr> = (st, r)"
      by (cases "walkDir fs (find_visit fs root) root info \<lparr>modules = NilSlice, stderr = []\<rparr>")
    with walk_find_Proceed(1) [of fs root root info "\<lparr>modules = NilSlice, stderr = []\<rparr>"]
    have "r = Proceed" by simp
    with True Inr w show ?thesis
      by (simp add: FindTerraformModules_def WalkDir_def)
  qed
qed










lemma ex_find: "FindTerraformModules ex_fs ''/proj'' True =
   (Slice [''/proj'', ''/proj/mods''], None,
    ''Warning: skipping /proj/secret due to error: open /proj/secret: permission denied'' @ [CHR 0x0A])"
  by code_simp

lemma ex_dirs: "elems (fst (FindTerraformModules ex_fs ''/proj'' True)) = [''/proj'', ''/proj/mods'']"
  by (simp add: ex_find)







lemma hasTerraformFiles_eq: "hasTerraformFiles fs dir = HasTerraformFiles fs dir"
  by (simp add: hasTerraformFiles_def HasTerraformFiles_def)

lemma main_find_visit_eq: "main_find_visit = find_visit"
  by (intro ext) (simp add: main_find_visit_def find_visit_def hasTerraformFiles_eq split: walk_arg.splits)

text \<open>
  C9. The copies in \<open>main.go\<close> agree with the functions of the internal packages:
  \<open>generateOutputFilename\<close> and \<open>GenerateOutputFilename\<close> return the same file name for
  every base and format, and \<open>findTerraformModules\<close> and \<open>FindTerraformModules\<close> return the
  same directories and the same error (and write the same warnings) for every file
  system, root and flag.
\<close>

theorem main_copies_equal:
  "generateOutputFilename baseOutput format = GenerateOutputFilename baseOutput format
   \<and> findTerraformModules fs root recursive = FindTerraformModules fs root recursive"
  by (simp add: generateOutputFilename_def GenerateOutputFilename_def findTerraformModules_def
        FindTerraformModules_def hasTerraformFiles_eq main_find_visit_eq)

text \<open>
  The copies on inputs of the examples.
\<close>

theorem main_copies_equal_witness:
  "generateOutputFilename ''out/report.txt'' ''spdx'' = ''out/report.spdx.json''
   \<and> GenerateOutputFilename ''out/report.txt'' ''spdx'' = ''out/report.spdx.json''
   \<and> generateOutputFilename [] ''yaml'' = ''sbom.json''
   \<and> GenerateOutputFilename [] ''yaml'' = ''sbom.json''
   \<and> findTerraformModules ex_fs ''/proj'' True =
       (Slice [''/proj'', ''/proj/mods''], None,
        ''Warning: skipping /proj/secret due to error: open /proj/secret: permission denied'' @
        [CHR 0x0A])"
proof -
  have a: "GenerateOutputFilename ''out/report.txt'' ''spdx'' = ''out/report.spdx.json''"
    by code_simp
  have b: "GenerateOutputFilename [] ''yaml'' = ''sbom.json''"
    by code_simp
  note t1 = main_copies_equal [of "''out/report.txt''" "''spdx''" ex_fs "''/proj''" True]
  note t2 = main_copies_equal [of "[]" "''yaml''" ex_fs "''/proj''" True]
  from t1 a have c: "generateOutputFilename ''out/report.txt'' ''spdx'' = ''out/report.spdx.json''"
    by simp
  from t2 b have d: "generateOutputFilename [] ''yaml'' = ''sbom.json''"
    by simp
  from t1 ex_find have e: "findTerraformModules ex_fs ''/proj'' True =
       (Slice [''/proj'', ''/proj/mods''], None,
        ''Warning: skipping /proj/secret due to error: open /proj/secret: permission denied'' @
        [CHR 0x0A])"
    by simp
  from a b c d e show ?thesis by blast
qed

section \<open>Generating the SBOM\<close>

lemma calls_loop_fields:
  "SBOM_Version (calls_loop sb cs) = SBOM_Version sb \<and> Generated (calls_loop sb cs) = Generated sb
   \<and> Tool (calls_loop sb cs) = Tool sb
   \<and> Modules (calls_loop sb cs) =
       (if cs = [] then Modules sb else Slice (elems (Modules sb) @ map module_info cs))"
  by (induction cs arbitrary: sb) (auto simp: append_slice_def)

lemma calls_loop_elems: "elems (Modules (calls_loop sb cs)) = elems (Modules sb) @ map module_info cs"
  by (simp add: calls_loop_fields)

lemma dirs_loop_fields:
  "dirs_loop L ord sb dirs = Inr s \<Longrightarrow>
   SBOM_Version s = SBOM_Version sb \<and> Generated s = Generated sb \<and> Tool s = Tool sb
   \<and> (Modules sb \<noteq> NilSlice \<longrightarrow> Modules s \<noteq> NilSlice)"
proof (induction dirs arbitrary: sb)
  case Nil
  then show ?case by simp
next
  case (Cons d dirs)
  obtain m dg where ld: "L d = (m, dg)" by (cases "L d")
  from Cons.prems ld have ne: "\<not> diag_HasErrors dg"
    by (auto split: if_splits)
  with Cons.prems ld have
    "dirs_loop L ord (calls_loop sb (map snd (range_order (ord d) (ModuleCalls m)))) dirs = Inr s"
    by simp
  from Cons.IH [OF this] show ?case
    by (simp add: calls_loop_fields)
qed

lemma Generate_Inr:
  "fst (Generate fs L now ord configPath recursive) = Inr s \<Longrightarrow>
   \<exists>absPath. Abs fs configPath = Inr absPath
     \<and> dirs_loop L ord (initial_sbom now)
          (elems (fst (FindTerraformModules fs absPath recursive))) = Inr s"
  by (auto simp: Generate_def initial_sbom_def split: option.splits sum.splits prod.splits)

lemma range_order_mset: "mset (range_order cs xs) = mset xs"
proof (induction cs arbitrary: xs)
  case Nil
  then show ?case by simp
next
  case (Cons c cs)
  show ?case
  proof (cases "xs = []")
    case True
    then show ?thesis by simp
  next
    case False
    define i where "i = c mod length xs"
    have i: "i < length xs" using False by (simp add: i_def)
    have "mset xs = mset (take i xs @ xs ! i # drop (Suc i) xs)"
      using id_take_nth_drop [OF i] by simp
    then show ?thesis using False Cons.IH [of "take i xs @ drop (Suc i) xs"]
      by (simp add: i_def [symmetric] Let_def)
  qed
qed

lemma dirs_loop_modules:
  "dirs_loop L ord sb dirs = Inr s \<Longrightarrow>
   elems (Modules s) =
     elems (Modules sb) @ concat (map (\<lambda>dir. map module_info (calls_in_order L ord dir)) dirs)"
proof (induction dirs arbitrary: sb)
  case Nil
  then show ?case by simp
next
  case (Cons d dirs)
  obtain m dg where ld: "L d = (m, dg)" by (cases "L d")
  from Cons.prems ld have ne: "\<not> diag_HasErrors dg"
    by (auto split: if_splits)
  with Cons.prems ld have
    "dirs_loop L ord (calls_loop sb (map snd (range_order (ord d) (ModuleCalls m)))) dirs = Inr s"
    by simp
  from Cons.IH [OF this] ld show ?case
    by (simp add: calls_loop_elems calls_in_order_def)
qed

lemma dirs_loop_result:
  "dirs_loop L ord sb dirs =
     (case find (\<lambda>dir. diag_HasErrors (snd (L dir))) dirs of
        Some dir \<Rightarrow> Inl (''failed to load Terraform module from '' @ dir @ '': '' @
                         diag_Error (snd (L dir)))
      | None \<Rightarrow> Inr (calls_loop sb (concat (map (calls_in_order L ord) dirs))))"
proof (induction dirs arbitrary: sb)
  case Nil
  then show ?case by simp
next
  case (Cons d dirs)
  have cl: "calls_loop (calls_loop sb xs) ys = calls_loop sb (xs @ ys)" for xs ys
    by (induction xs arbitrary: sb) simp_all
  show ?case
    by (cases "L d") (simp add: Cons.IH cl calls_in_order_def split: option.splits)
qed

lemma Generate_fst:
  "fst (Generate fs L now ord configPath recursive) =
     (case ValidateTerraformDirectory fs configPath of
        Some err \<Rightarrow> Inl err
      | None \<Rightarrow>
          (case Abs fs configPath of
             Inl err \<Rightarrow> Inl (''failed to get absolute path: '' @ err)
           | Inr absPath \<Rightarrow>
               (case find (\<lambda>dir. diag_HasErrors (snd (L dir)))
                       (elems (fst (FindTerraformModules fs absPath recursive))) of
                  Some dir \<Rightarrow> Inl (''failed to load Terraform module from '' @ dir @ '': '' @
                                   diag_Error (snd (L dir)))
                | None \<Rightarrow> Inr (calls_loop (initial_sbom now)
                    (concat (map (calls_in_order L ord)
                       (elems (fst (FindTerraformModules fs absPath recursive)))))))))"
proof (cases "ValidateTerraformDirectory fs configPath")
  case (Some err)
  then show ?thesis by (simp add: Generate_def)
next
  case None
  show ?thesis
  proof (cases "Abs fs configPath")
    case (Inl err)
    with None show ?thesis by (simp add: Generate_def)
  next
    case (Inr absPath)
    obtain dirs e out where f: "FindTerraformModules fs absPath recursive = (dirs, e, out)"
      by (cases "FindTerraformModules fs absPath recursive")
    with FindTerraformModules_no_error [of fs absPath recursive] have e: "e = None" by simp
    show ?thesis
      using None Inr f e
      by (simp add: Generate_def dirs_loop_result initial_sbom_def split: option.splits)
  qed
qed

lemma calls_in_order_mset:
  "mset (calls_in_order L ord1 dir) = mset (calls_in_order L ord2 dir)"
  by (simp add: calls_in_order_def range_order_mset)

lemma modules_mset_order:
  "mset (concat (map (\<lambda>dir. map module_info (calls_in_order L ord1 dir)) dirs)) =
   mset (concat (map (\<lambda>dir. map module_info (calls_in_order L ord2 dir)) dirs))"
  by (induction dirs) (simp_all add: calls_in_order_mset [of L ord1 _ ord2])

lemma itoa_nat_digits: "list_all is_digit (itoa_nat n)"
proof (induction n rule: itoa_nat.induct)
  case (1 n)
  have d: "is_digit (''0123456789'' ! k)" if "k < 10" for k
    using that unfolding is_digit_def by (intro nth_mem) simp
  show ?case
  proof (cases "n < 10")
    case True
    then show ?thesis by (subst itoa_nat.simps) (simp add: d)
  next
    case False
    then show ?thesis using 1 by (subst itoa_nat.simps) (simp add: d)
  qed
qed

lemma itoa_nat_length: "0 < k \<Longrightarrow> n < 10 ^ k \<Longrightarrow> length (itoa_nat n) \<le> k"
proof (induction k arbitrary: n)
  case 0
  then show ?case by simp
next
  case (Suc k)
  show ?case
  proof (cases "n < 10")
    case True
    then show ?thesis by (subst itoa_nat.simps) simp
  next
    case False
    then have k: "0 < k" using Suc.prems by (cases k) auto
    have "n div 10 < 10 ^ k" using Suc.prems by (simp add: less_mult_imp_div_less mult.commute)
    from Suc.IH [OF k this] False show ?thesis by (subst itoa_nat.simps) simp
  qed
qed

lemma digits_all: "list_all is_digit ds \<Longrightarrow> digits (length ds) (ds @ rest) = Some rest"
  by (induction ds) auto

lemma digits_pad: "0 < k \<Longrightarrow> n < 10 ^ k \<Longrightarrow> digits k (pad k n @ rest) = Some rest"
proof -
  assume a: "0 < k" "n < 10 ^ k"
  have z: "is_digit CHR ''0''" by (simp add: is_digit_def)
  have "list_all is_digit (pad k n)"
    using itoa_nat_digits [of n] by (auto simp: pad_def z list_all_iff)
  moreover have "length (pad k n) = k"
    using itoa_nat_length [OF a] by (simp add: pad_def)
  ultimately show ?thesis using digits_all [of "pad k n" rest] by simp
qed

lemma digits_pad2: "n < 100 \<Longrightarrow> digits 2 (pad 2 n @ rest) = Some rest"
  using digits_pad [of 2 n rest] by simp

lemma digits_pad4: "n < 10000 \<Longrightarrow> digits 4 (pad 4 n @ rest) = Some rest"
  using digits_pad [of 4 n rest] by simp

lemma Format_zone_ok: "\<bar>off\<bar> < 86400 \<Longrightarrow> is_zone (Format_zone off)"
proof -
  assume a: "\<bar>off\<bar> < 86400"
  define zone where "zone = (if off < 0 then - ((- off) div 60) else off div 60)"
  define m where "m = nat \<bar>zone\<bar>"
  have "m < 1440" using a unfolding m_def zone_def by auto
  then have h: "m div 60 < 100" and mi: "m mod 60 < 100" by auto
  have p: "digits 2 (pad 2 (m div 60) @ CHR '':'' # pad 2 (m mod 60)) = Some (CHR '':'' # pad 2 (m mod 60))"
    using digits_pad2 [OF h] by simp
  have q: "digits 2 (pad 2 (m mod 60)) = Some []"
    using digits_pad2 [OF mi, of "[]"] by simp
  show ?thesis
    unfolding Format_zone_def is_zone_def Let_def zone_def [symmetric] m_def [symmetric]
    by (simp add: p q)
qed

lemma Format_RFC3339_ok: "valid_time t \<Longrightarrow> is_RFC3339 (Format_RFC3339 t)"
proof -
  assume v: "valid_time t"
  then have y: "t_year t < 10000" and mo: "t_month t < 100" and d: "t_day t < 100"
    and h: "t_hour t < 100" and mi: "t_minute t < 100" and s: "t_second t < 100"
    and z: "\<bar>t_offset t\<bar> < 86400"
    by (auto simp: valid_time_def)
  show ?thesis
    unfolding is_RFC3339_def Format_RFC3339_def Format_datetime_def
    by (simp add: digits_pad4 [OF y] digits_pad2 [OF mo] digits_pad2 [OF d] digits_pad2 [OF h]
          digits_pad2 [OF mi] digits_pad2 [OF s] Format_zone_ok [OF z])
qed

lemma ex_gen: "Generate ex_fs ex_parser ex_now order_stored ''/proj'' True =
  (Inr \<lparr>SBOM_Version = ''1.0'', Generated = ''2026-11-01T09:05:00+01:00'', Tool = ''terraform-sbom'',
     Modules = Slice [
       \<lparr>Name = ''consul'', Source = ''hashicorp/consul/aws'', Version = [],
        Location = ''Module call at /proj/main.tf:9'', Filename = ''main.tf''\<rparr>,
       \<lparr>Name = ''vpc'', Source = ''terraform-aws-modules/vpc/aws'', Version = ''~> 5.0'',
        Location = ''Module call at /proj/main.tf:2'', Filename = ''main.tf''\<rparr>]\<rparr>,
   ''Warning: skipping /proj/secret due to error: open /proj/secret: permission denied'' @ [CHR 0x0A])"
  by code_simp

lemma ex_gen_stored:
  "fst (Generate ex_fs ex_parser ex_now order_stored ''/proj'' True) = Inr ex_result"
  by (simp add: ex_gen ex_result_def)

lemma ex_gen_swapped:
  "fst (Generate ex_fs ex_parser ex_now order_swapped ''/proj'' True) = Inr ex_result_swapped"
  by code_simp

lemma ex_abs: "Abs ex_fs ''/proj'' = Inr ''/proj''"
  by code_simp







text \<open>
  C3, as stated, fails. The module calls of a directory are the entries of a Go map, and
  \<open>range\<close> visits them in an order that differs from run to run. Two runs on the example,
  with the same path and flag and on the same files, return the two records in opposite
  orders.
\<close>

theorem Generate_order_counterexample:
  "fst (Generate ex_fs ex_parser ex_now order_stored ''/proj'' True) = Inr ex_result
   \<and> fst (Generate ex_fs ex_parser ex_now order_swapped ''/proj'' True) = Inr ex_result_swapped
   \<and> Modules ex_result \<noteq> Modules ex_result_swapped"
  using ex_gen_stored ex_gen_swapped by (simp add: ex_result_def ex_result_swapped_def)

text \<open>
  C3, amended. For a fixed state of the file system and of what the parser returns, any
  two runs of \<open>Generate\<close> with the same path and flag fail with the same error or both
  succeed; when they succeed, their \<open>Modules\<close> lists hold the same records the same
  number of times. Both lists are made of one block per module directory, the
  directories in the same order, and the blocks of a directory hold the same records;
  only the order within a block, the order in which \<open>range\<close> visits the map of module
  calls, may differ. Two runs that visit the maps in the same order return the same list.
\<close>

theorem Generate_modules_up_to_order:
  "(\<forall>e. (fst (Generate fs L now1 ord1 configPath recursive) = Inl e) =
         (fst (Generate fs L now2 ord2 configPath recursive) = Inl e))
   \<and> (\<forall>s1 s2. fst (Generate fs L now1 ord1 configPath recursive) = Inr s1
        \<and> fst (Generate fs L now2 ord2 configPath recursive) = Inr s2 \<longrightarrow>
        mset (elems (Modules s1)) = mset (elems (Modules s2))
        \<and> (\<exists>dirs.
              elems (Modules s1) =
                concat (map (\<lambda>dir. map module_info (calls_in_order L ord1 dir)) dirs)
            \<and> elems (Modules s2) =
                concat (map (\<lambda>dir. map module_info (calls_in_order L ord2 dir)) dirs)
            \<and> (\<forall>dir. mset (calls_in_order L ord1 dir) = mset (calls_in_order L ord2 dir)))
        \<and> (ord1 = ord2 \<longrightarrow> Modules s1 = Modules s2))"
proof (intro conjI allI impI)
  fix e
  show "(fst (Generate fs L now1 ord1 configPath recursive) = Inl e) =
         (fst (Generate fs L now2 ord2 configPath recursive) = Inl e)"
    by (simp add: Generate_fst split: option.splits sum.splits)
next
  fix s1 s2
  assume a: "fst (Generate fs L now1 ord1 configPath recursive) = Inr s1
        \<and> fst (Generate fs L now2 ord2 configPath recursive) = Inr s2"
  from a Generate_Inr [of fs L now1 ord1 configPath recursive s1]
  obtain absPath where ab: "Abs fs configPath = Inr absPath"
    and d1: "dirs_loop L ord1 (initial_sbom now1)
          (elems (fst (FindTerraformModules fs absPath recursive))) = Inr s1"
    by blast
  from a Generate_Inr [of fs L now2 ord2 configPath recursive s2] ab
  have d2: "dirs_loop L ord2 (initial_sbom now2)
          (elems (fst (FindTerraformModules fs absPath recursive))) = Inr s2"
    by auto
  define dirs where "dirs = elems (fst (FindTerraformModules fs absPath recursive))"
  have m1: "elems (Modules s1) =
      concat (map (\<lambda>dir. map module_info (calls_in_order L ord1 dir)) dirs)"
    using dirs_loop_modules [OF d1] by (simp add: initial_sbom_def dirs_def)
  have m2: "elems (Modules s2) =
      concat (map (\<lambda>dir. map module_info (calls_in_order L ord2 dir)) dirs)"
    using dirs_loop_modules [OF d2] by (simp add: initial_sbom_def dirs_def)
  have n1: "Modules s1 \<noteq> NilSlice" using dirs_loop_fields [OF d1] by (simp add: initial_sbom_def)
  have n2: "Modules s2 \<noteq> NilSlice" using dirs_loop_fields [OF d2] by (simp add: initial_sbom_def)
  show "mset (elems (Modules s1)) = mset (elems (Modules s2))"
    by (simp only: m1 m2 modules_mset_order [of L ord1 dirs ord2])
  show "\<exists>dirs.
              elems (Modules s1) =
                concat (map (\<lambda>dir. map module_info (calls_in_order L ord1 dir)) dirs)
            \<and> elems (Modules s2) =
                concat (map (\<lambda>dir. map module_info (calls_in_order L ord2 dir)) dirs)
            \<and> (\<forall>dir. mset (calls_in_order L ord1 dir) = mset (calls_in_order L ord2 dir))"
    using m1 m2 calls_in_order_mset [of L ord1 _ ord2] by blast
  assume "ord1 = ord2"
  with m1 m2 have "elems (Modules s1) = elems (Modules s2)" by simp
  with n1 n2 show "Modules s1 = Modules s2"
    by (cases "Modules s1"; cases "Modules s2") simp_all
qed

theorem Generate_modules_up_to_order_witness:
  "fst (Generate ex_fs ex_parser ex_now order_stored ''/proj'' True) = Inr ex_result
   \<and> fst (Generate ex_fs ex_parser ex_now order_swapped ''/proj'' True) = Inr ex_result_swapped
   \<and> mset (elems (Modules ex_result)) = mset (elems (Modules ex_result_swapped))"
  using Generate_modules_up_to_order [of ex_fs ex_parser ex_now order_stored "''/proj''" True
      ex_now order_swapped] ex_gen_stored ex_gen_swapped
  by blast

text \<open>
  C4. When \<open>Generate\<close> succeeds, \<open>Modules\<close> holds, for every module directory found, in
  order, one record for each module call of the directory, and nothing else: every
  module call gives exactly one \<open>ModuleInfo\<close>. The record of a call has the Name, Source
  and Version of the call (the Version as it is, empty or not), the Location
  \<open>Module call at <file>:<line>\<close> made of the position of the call, and as Filename the
  base name of the file of the position. The records in the result are the records as
  created.
\<close>

theorem Generate_modules:
  "fst (Generate fs L now ord configPath recursive) = Inr s \<Longrightarrow>
   Abs fs configPath = Inr absPath \<Longrightarrow>
   dirs = elems (fst (FindTerraformModules fs absPath recursive)) \<Longrightarrow>
   elems (Modules s) = concat (map (\<lambda>dir. map module_info (calls_in_order L ord dir)) dirs)
   \<and> mset (elems (Modules s)) =
       mset (map module_info (concat (map (\<lambda>dir. map snd (ModuleCalls (fst (L dir)))) dirs)))
   \<and> Name (module_info mc) = mc_Name mc \<and> Source (module_info mc) = mc_Source mc
   \<and> Version (module_info mc) = mc_Version mc
   \<and> Location (module_info mc) =
       ''Module call at '' @ Pos_Filename mc @ '':'' @ itoa (Pos_Line mc)
   \<and> Filename (module_info mc) = Base (Pos_Filename mc)"
proof -
  assume g: "fst (Generate fs L now ord configPath recursive) = Inr s"
    and a: "Abs fs configPath = Inr absPath"
    and d: "dirs = elems (fst (FindTerraformModules fs absPath recursive))"
  from Generate_Inr [OF g] a d have "dirs_loop L ord (initial_sbom now) dirs = Inr s" by auto
  from dirs_loop_modules [OF this]
  have l: "elems (Modules s) = concat (map (\<lambda>dir. map module_info (calls_in_order L ord dir)) dirs)"
    by (simp add: initial_sbom_def)
  have m: "mset (concat (map (\<lambda>dir. map module_info (calls_in_order L ord dir)) ds)) =
        mset (map module_info (concat (map (\<lambda>dir. map snd (ModuleCalls (fst (L dir)))) ds)))" for ds
    by (induction ds) (simp_all add: calls_in_order_def range_order_mset)
  show ?thesis
    by (simp add: l m module_info_def)
qed

theorem Generate_modules_witness:
  "fst (Generate ex_fs ex_parser ex_now order_stored ''/proj'' True) = Inr ex_result
   \<and> Abs ex_fs ''/proj'' = Inr ''/proj''
   \<and> [''/proj'', ''/proj/mods''] = elems (fst (FindTerraformModules ex_fs ''/proj'' True))
   \<and> elems (Modules ex_result) =
       map module_info (calls_in_order ex_parser order_stored ''/proj'') @
       map module_info (calls_in_order ex_parser order_stored ''/proj/mods'')
   \<and> mset (elems (Modules ex_result)) =
       mset (map module_info
         (map snd (ModuleCalls (fst (ex_parser ''/proj''))) @
          map snd (ModuleCalls (fst (ex_parser ''/proj/mods'')))))
   \<and> Location (module_info ex_vpc_call) = ''Module call at /proj/main.tf:2''
   \<and> Filename (module_info ex_vpc_call) = ''main.tf''"
proof -
  have l: "Location (module_info ex_vpc_call) = ''Module call at /proj/main.tf:2''"
    and f: "Filename (module_info ex_vpc_call) = ''main.tf''"
    by code_simp+
  note t = Generate_modules [OF ex_gen_stored ex_abs ex_dirs [symmetric], of ex_vpc_call]
  have a: "elems (Modules ex_result) =
       map module_info (calls_in_order ex_parser order_stored ''/proj'') @
       map module_info (calls_in_order ex_parser order_stored ''/proj/mods'')"
    using t [THEN conjunct1] by simp
  have b: "mset (elems (Modules ex_result)) =
       mset (map module_info
         (map snd (ModuleCalls (fst (ex_parser ''/proj''))) @
          map snd (ModuleCalls (fst (ex_parser ''/proj/mods'')))))"
    using t [THEN conjunct2, THEN conjunct1] by simp
  from ex_gen_stored ex_abs ex_dirs [symmetric] a b l f show ?thesis by blast
qed

text \<open>
  C6. Every SBOM that \<open>Generate\<close> returns has the Version \<open>1.0\<close>, the Tool
  \<open>terraform-sbom\<close>, as Generated the reading of the clock formatted with the layout of
  RFC 3339 (which has the shape of an RFC 3339 timestamp for every reading with its
  fields in range), and a \<open>Modules\<close> slice that is not nil.
\<close>

theorem Generate_envelope:
  "fst (Generate fs L now ord configPath recursive) = Inr s \<Longrightarrow>
   SBOM_Version s = ''1.0'' \<and> Tool s = ''terraform-sbom'' \<and> Generated s = Format_RFC3339 now
   \<and> Modules s \<noteq> NilSlice \<and> (valid_time now \<longrightarrow> is_RFC3339 (Generated s))"
proof -
  assume "fst (Generate fs L now ord configPath recursive) = Inr s"
  from Generate_Inr [OF this] obtain absPath where
    "dirs_loop L ord (initial_sbom now)
       (elems (fst (FindTerraformModules fs absPath recursive))) = Inr s"
    by blast
  from dirs_loop_fields [OF this] show ?thesis
    by (simp add: initial_sbom_def Format_RFC3339_ok)
qed

theorem Generate_envelope_witness:
  "fst (Generate ex_fs ex_parser ex_now order_stored ''/proj'' True) =
     Inr \<lparr>SBOM_Version = ''1.0'', Generated = ''2026-11-01T09:05:00+01:00'', Tool = ''terraform-sbom'',
     Modules = Slice [
       \<lparr>Name = ''consul'', Source = ''hashicorp/consul/aws'', Version = [],
        Location = ''Module call at /proj/main.tf:9'', Filename = ''main.tf''\<rparr>,
       \<lparr>Name = ''vpc'', Source = ''terraform-aws-modules/vpc/aws'', Version = ''~> 5.0'',
        Location = ''Module call at /proj/main.tf:2'', Filename = ''main.tf''\<rparr>]\<rparr>
   \<and> valid_time ex_now
   \<and> is_RFC3339 ''2026-11-01T09:05:00+01:00''"
proof -
  have v: "valid_time ex_now" by (simp add: valid_time_def ex_now_def)
  have g: "fst (Generate ex_fs ex_parser ex_now order_stored ''/proj'' True) =
     Inr \<lparr>SBOM_Version = ''1.0'', Generated = ''2026-11-01T09:05:00+01:00'', Tool = ''terraform-sbom'',
     Modules = Slice [
       \<lparr>Name = ''consul'', Source = ''hashicorp/consul/aws'', Version = [],
        Location = ''Module call at /proj/main.tf:9'', Filename = ''main.tf''\<rparr>,
       \<lparr>Name = ''vpc'', Source = ''terraform-aws-modules/vpc/aws'', Version = ''~> 5.0'',
        Location = ''Module call at /proj/main.tf:2'', Filename = ''main.tf''\<rparr>]\<rparr>"
    by (simp add: ex_gen)
  from Generate_envelope [OF g, unfolded SBOM.simps] v
  have "is_RFC3339 ''2026-11-01T09:05:00+01:00''"
    by blast
  with g v show ?thesis by simp
qed

section \<open>The exports\<close>

lemma write_records_ok:
  "validDelim (Comma w) \<Longrightarrow>
   write_records w formatName ms =
     (w\<lparr>buffered := buffered w @
        concat (map (\<lambda>m. csv_row (Comma w) [Name m, Source m, Version m, Location m]) ms)\<rparr>, None)"
  by (induction ms arbitrary: w) (simp_all add: csv_Write_def)

lemma exportDelimited_ok:
  "validDelim sep \<Longrightarrow>
   exportDelimited s sep formatName =
     (concat (map (csv_row sep)
        ([''Name'', ''Source'', ''Version'', ''Location''] #
         map (\<lambda>m. [Name m, Source m, Version m, Location m]) (elems (Modules s)))), None)"
  by (simp add: exportDelimited_def csv_Write_def csv_NewWriter_def write_records_ok comp_def)

text \<open>
  C7. For every SBOM the CSV export succeeds and writes the header row
  \<open>Name,Source,Version,Location\<close> followed by one row per module, in the order of
  \<open>Modules\<close>, holding the Name, Source, Version and Location of the module and not its
  Filename; the TSV export writes the same rows with a tab as the separator of the
  fields.
\<close>

theorem CSV_TSV_rows:
  "CSV s =
     (concat (map (csv_row (CHR '',''))
        ([''Name'', ''Source'', ''Version'', ''Location''] #
         map (\<lambda>m. [Name m, Source m, Version m, Location m]) (elems (Modules s)))), None)
   \<and> TSV s =
     (concat (map (csv_row (CHR 0x09))
        ([''Name'', ''Source'', ''Version'', ''Location''] #
         map (\<lambda>m. [Name m, Source m, Version m, Location m]) (elems (Modules s)))), None)
   \<and> csv_row (CHR '','') [''Name'', ''Source'', ''Version'', ''Location''] =
        ''Name,Source,Version,Location'' @ [CHR 0x0A]
   \<and> csv_row (CHR 0x09) [''Name'', ''Source'', ''Version'', ''Location''] =
        ''Name'' @ [CHR 0x09] @ ''Source'' @ [CHR 0x09] @ ''Version'' @ [CHR 0x09] @
        ''Location'' @ [CHR 0x0A]"
proof (intro conjI)
  show "CSV s =
     (concat (map (csv_row (CHR '',''))
        ([''Name'', ''Source'', ''Version'', ''Location''] #
         map (\<lambda>m. [Name m, Source m, Version m, Location m]) (elems (Modules s)))), None)"
    by (simp add: CSV_def exportDelimited_ok validDelim_def)
  show "TSV s =
     (concat (map (csv_row (CHR 0x09))
        ([''Name'', ''Source'', ''Version'', ''Location''] #
         map (\<lambda>m. [Name m, Source m, Version m, Location m]) (elems (Modules s)))), None)"
    by (simp add: TSV_def exportDelimited_ok validDelim_def)
  show "csv_row (CHR '','') [''Name'', ''Source'', ''Version'', ''Location''] =
        ''Name,Source,Version,Location'' @ [CHR 0x0A]"
    by (simp add: csv_row_def csv_field_def fieldNeedsQuotes_def)
  show "csv_row (CHR 0x09) [''Name'', ''Source'', ''Version'', ''Location''] =
        ''Name'' @ [CHR 0x09] @ ''Source'' @ [CHR 0x09] @ ''Version'' @ [CHR 0x09] @
        ''Location'' @ [CHR 0x0A]"
    by (simp add: csv_row_def csv_field_def fieldNeedsQuotes_def)
qed

text \<open>
  The two exports of the SBOM of the examples.
\<close>

theorem CSV_TSV_rows_witness:
  "CSV ex_sbom =
     (''Name,Source,Version,Location'' @ [CHR 0x0A] @
      ''vpc,terraform-aws-modules/vpc/aws,~> 5.0,Module call at main.tf:2'' @ [CHR 0x0A] @
      ''consul,hashicorp/consul/aws,,Module call at main.tf:9'' @ [CHR 0x0A], None)
   \<and> TSV ex_sbom =
     (''Name'' @ [CHR 0x09] @ ''Source'' @ [CHR 0x09] @ ''Version'' @ [CHR 0x09] @ ''Location'' @
        [CHR 0x0A] @
      ''vpc'' @ [CHR 0x09] @ ''terraform-aws-modules/vpc/aws'' @ [CHR 0x09] @ ''~> 5.0'' @
        [CHR 0x09] @ ''Module call at main.tf:2'' @ [CHR 0x0A] @
      ''consul'' @ [CHR 0x09] @ ''hashicorp/consul/aws'' @ [CHR 0x09] @ [CHR 0x09] @
        ''Module call at main.tf:9'' @ [CHR 0x0A], None)"
proof -
  have r: "csv_row (CHR '','') [Name ex_vpc, Source ex_vpc, Version ex_vpc, Location ex_vpc] =
        ''vpc,terraform-aws-modules/vpc/aws,~> 5.0,Module call at main.tf:2'' @ [CHR 0x0A]"
      "csv_row (CHR '','') [Name ex_consul, Source ex_consul, Version ex_consul, Location ex_consul] =
        ''consul,hashicorp/consul/aws,,Module call at main.tf:9'' @ [CHR 0x0A]"
      "csv_row (CHR 0x09) [Name ex_vpc, Source ex_vpc, Version ex_vpc, Location ex_vpc] =
        ''vpc'' @ [CHR 0x09] @ ''terraform-aws-modules/vpc/aws'' @ [CHR 0x09] @ ''~> 5.0'' @
        [CHR 0x09] @ ''Module call at main.tf:2'' @ [CHR 0x0A]"
      "csv_row (CHR 0x09) [Name ex_consul, Source ex_consul, Version ex_consul, Location ex_consul] =
        ''consul'' @ [CHR 0x09] @ ''hashicorp/consul/aws'' @ [CHR 0x09] @ [CHR 0x09] @
        ''Module call at main.tf:9'' @ [CHR 0x0A]"
    by code_simp+
  have m: "elems (Modules ex_sbom) = [ex_vpc, ex_consul]" by (simp add: ex_sbom_def)
  note t = CSV_TSV_rows [of ex_sbom, unfolded m list.map concat.simps]
  have a: "CSV ex_sbom =
     (''Name,Source,Version,Location'' @ [CHR 0x0A] @
      ''vpc,terraform-aws-modules/vpc/aws,~> 5.0,Module call at main.tf:2'' @ [CHR 0x0A] @
      ''consul,hashicorp/consul/aws,,Module call at main.tf:9'' @ [CHR 0x0A], None)"
    using t [THEN conjunct1] t [THEN conjunct2, THEN conjunct2, THEN conjunct1] r(1,2)
    by (simp only: append_Nil2 append_assoc)
  have b: "TSV ex_sbom =
     (''Name'' @ [CHR 0x09] @ ''Source'' @ [CHR 0x09] @ ''Version'' @ [CHR 0x09] @ ''Location'' @
        [CHR 0x0A] @
      ''vpc'' @ [CHR 0x09] @ ''terraform-aws-modules/vpc/aws'' @ [CHR 0x09] @ ''~> 5.0'' @
        [CHR 0x09] @ ''Module call at main.tf:2'' @ [CHR 0x0A] @
      ''consul'' @ [CHR 0x09] @ ''hashicorp/consul/aws'' @ [CHR 0x09] @ [CHR 0x09] @
        ''Module call at main.tf:9'' @ [CHR 0x0A], None)"
    using t [THEN conjunct2, THEN conjunct1] t [THEN conjunct2, THEN conjunct2, THEN conjunct2] r(3,4)
    by (simp only: append_Nil2 append_assoc)
  from a b show ?thesis by blast
qed

lemma spdx_package_eq:
  "spdx_package i m =
     \<lparr>PackageName = Name m,
      PackageSPDXIdentifier = ''SPDXRef-Package-'' @ itoa (int i),
      PackageDownloadLocation = Source m,
      PackageCopyrightText = ''NOASSERTION'',
      PackageVersion = (if Version m = [] then ''NOASSERTION'' else Version m)\<rparr>"
  by (simp add: spdx_package_def Let_def)

lemma spdx_loop_fills:
  "length pkgs = k + length ms \<Longrightarrow>
   spdx_loop pkgs (enumerate k ms) =
     take k pkgs @ map (\<lambda>(i, m). Some (spdx_package i m)) (enumerate k ms)"
proof (induction ms arbitrary: k pkgs)
  case Nil
  then show ?case by simp
next
  case (Cons m ms)
  have "spdx_loop pkgs (enumerate k (m # ms)) =
        spdx_loop (pkgs[k := Some (spdx_package k m)]) (enumerate (Suc k) ms)" by simp
  also have "\<dots> = take (Suc k) (pkgs[k := Some (spdx_package k m)]) @
        map (\<lambda>(i, m). Some (spdx_package i m)) (enumerate (Suc k) ms)"
    using Cons.prems by (intro Cons.IH) simp
  also have "take (Suc k) (pkgs[k := Some (spdx_package k m)]) =
        take k pkgs @ [Some (spdx_package k m)]"
    using Cons.prems by (simp add: take_Suc_conv_app_nth)
  finally show ?case by simp
qed

lemma cdx_loop_fills:
  "length cs = k + length ms \<Longrightarrow>
   cdx_loop cs (enumerate k ms) = take k cs @ map cdx_component ms"
proof (induction ms arbitrary: k cs)
  case Nil
  then show ?case by simp
next
  case (Cons m ms)
  have "cdx_loop cs (enumerate k (m # ms)) =
        cdx_loop (cs[k := cdx_component m]) (enumerate (Suc k) ms)" by simp
  also have "\<dots> = take (Suc k) (cs[k := cdx_component m]) @ map cdx_component ms"
    using Cons.prems by (intro Cons.IH) simp
  also have "take (Suc k) (cs[k := cdx_component m]) = take k cs @ [cdx_component m]"
    using Cons.prems by (simp add: take_Suc_conv_app_nth)
  finally show ?case by simp
qed

lemma cdx_component_eq:
  "cdx_component m =
     \<lparr>Component_Type = ''library'', Component_Name = Name m, Component_Version = Version m,
      Component_Group = takeWhile (\<lambda>c. c \<noteq> CHR ''/'') (Source m)\<rparr>"
proof -
  have "length (Split (Source m) (CHR ''/'')) > 0" by (simp add: Split_nonempty)
  then show ?thesis
    unfolding cdx_component_def Let_def
    by (cases "Source m = []") (simp_all add: zero_Component_def hd_Split)
qed

text \<open>
  C8, as stated, fails. For the SBOM of the two modules \<open>vpc\<close> and \<open>consul\<close>, the SPDX
  identifiers of the two packages differ and neither is a field of its module, and the
  CycloneDX groups of the two components differ and neither is a field of its module:
  these two fields are neither fixed constants nor verbatim copies.
\<close>

theorem builders_fields_counterexample:
  "map (map_option PackageSPDXIdentifier) (Packages (ConvertToSPDX ex_now ex_now ex_sbom)) =
     [Some ''SPDXRef-Package-0'', Some ''SPDXRef-Package-1'']
   \<and> ''SPDXRef-Package-0'' \<notin> set (module_fields ex_vpc)
   \<and> ''SPDXRef-Package-1'' \<notin> set (module_fields ex_consul)
   \<and> map_option (map Component_Group) (Components (ConvertToCycloneDX ex_now ex_sbom)) =
     Some [''terraform-aws-modules'', ''hashicorp'']
   \<and> ''terraform-aws-modules'' \<notin> set (module_fields ex_vpc)
   \<and> ''hashicorp'' \<notin> set (module_fields ex_consul)"
  by (simp add: ConvertToSPDX_def ConvertToCycloneDX_def ex_sbom_def ex_vpc_def ex_consul_def
        spdx_package_eq cdx_component_eq module_fields_def itoa_def itoa_nat.simps Let_def)

text \<open>
  C8, amended. For every SBOM the builders make one SPDX package and one CycloneDX
  component per module, in the order of \<open>Modules\<close>. Of a package, the name and the
  download location are the Name and Source of the module, the copyright text is
  \<open>NOASSERTION\<close>, the version is the Version of the module, or \<open>NOASSERTION\<close> when that
  is empty, and the identifier is \<open>SPDXRef-Package-\<close> followed by the index of the module
  in the list. Of a component, the type is \<open>library\<close>, the name and the version are the
  Name and Version of the module (the version is set exactly when that of the module is
  not empty), and the group is the part of the Source of the module before its first
  slash.
\<close>

theorem builders_copy_and_derive:
  "Packages (ConvertToSPDX now1 now2 s) =
     map (\<lambda>(i, m). Some
        \<lparr>PackageName = Name m,
         PackageSPDXIdentifier = ''SPDXRef-Package-'' @ itoa (int i),
         PackageDownloadLocation = Source m,
         PackageCopyrightText = ''NOASSERTION'',
         PackageVersion = (if Version m = [] then ''NOASSERTION'' else Version m)\<rparr>)
       (enumerate 0 (elems (Modules s)))
   \<and> Components (ConvertToCycloneDX now s) =
     Some (map (\<lambda>m.
        \<lparr>Component_Type = ''library'', Component_Name = Name m, Component_Version = Version m,
         Component_Group = takeWhile (\<lambda>c. c \<noteq> CHR ''/'') (Source m)\<rparr>)
       (elems (Modules s)))"
proof
  show "Packages (ConvertToSPDX now1 now2 s) =
     map (\<lambda>(i, m). Some
        \<lparr>PackageName = Name m,
         PackageSPDXIdentifier = ''SPDXRef-Package-'' @ itoa (int i),
         PackageDownloadLocation = Source m,
         PackageCopyrightText = ''NOASSERTION'',
         PackageVersion = (if Version m = [] then ''NOASSERTION'' else Version m)\<rparr>)
       (enumerate 0 (elems (Modules s)))"
    by (simp add: ConvertToSPDX_def spdx_loop_fills spdx_package_eq Let_def)
  show "Components (ConvertToCycloneDX now s) =
     Some (map (\<lambda>m.
        \<lparr>Component_Type = ''library'', Component_Name = Name m, Component_Version = Version m,
         Component_Group = takeWhile (\<lambda>c. c \<noteq> CHR ''/'') (Source m)\<rparr>)
       (elems (Modules s)))"
    by (simp add: ConvertToCycloneDX_def cdx_loop_fills cdx_component_eq Let_def)
qed

text \<open>
  The packages and components of the SBOM of the examples.
\<close>

theorem builders_copy_and_derive_witness:
  "Packages (ConvertToSPDX ex_now ex_now ex_sbom) =
     [Some \<lparr>PackageName = ''vpc'', PackageSPDXIdentifier = ''SPDXRef-Package-0'',
            PackageDownloadLocation = ''terraform-aws-modules/vpc/aws'',
            PackageCopyrightText = ''NOASSERTION'', PackageVersion = ''~> 5.0''\<rparr>,
      Some \<lparr>PackageName = ''consul'', PackageSPDXIdentifier = ''SPDXRef-Package-1'',
            PackageDownloadLocation = ''hashicorp/consul/aws'',
            PackageCopyrightText = ''NOASSERTION'', PackageVersion = ''NOASSERTION''\<rparr>]
   \<and> Components (ConvertToCycloneDX ex_now ex_sbom) =
     Some [\<lparr>Component_Type = ''library'', Component_Name = ''vpc'',
             Component_Version = ''~> 5.0'', Component_Group = ''terraform-aws-modules''\<rparr>,
           \<lparr>Component_Type = ''library'', Component_Name = ''consul'',
             Component_Version = [], Component_Group = ''hashicorp''\<rparr>]"
  using builders_copy_and_derive [of ex_now ex_now ex_sbom ex_now]
  by (simp add: ex_sbom_def ex_vpc_def ex_consul_def itoa_def itoa_nat.simps)

text \<open>
  C10, as stated, fails where \<open>os.Create\<close> fails. In the example the directory of the
  output path does not exist: for the unsupported format \<open>yaml\<close>, \<open>Export\<close> returns
  the error of the creation, not the error for the unsupported format, and leaves no
  file behind.
\<close>

theorem Export_create_fails_counterexample:
  "''yaml'' \<noteq> [] \<and> ''yaml'' \<notin> set supported_formats \<and> ''nodir/x.yaml'' \<noteq> []
   \<and> Export ex_exportEnv_nodir ex_now ex_now Map.empty (Some ex_sbom) ''yaml'' ''nodir/x.yaml'' =
        (Map.empty,
         Some ''failed to create output file: open nodir/x.yaml: no such file or directory'')"
  by (simp add: supported_formats_def Export_def ex_exportEnv_nodir_def ex_exportEnv_def
        HasPrefix_def)

text \<open>
  C10, amended. \<open>Export\<close> rejects a nil SBOM, an empty format and an empty output path
  with the files untouched. For a format that is not empty and not supported, with an
  SBOM and a path that pass these checks, it creates the file first: when \<open>os.Create\<close>
  succeeds, the file at the output path is left behind empty and the error returned is
  the one for the unsupported format; when \<open>os.Create\<close> fails, its error is returned
  and no file is written.
\<close>

theorem Export_validates_then_creates:
  "Export env now1 now2 fs None format outputPath = (fs, Some ''sbom cannot be nil'')
   \<and> Export env now1 now2 fs (Some sb) [] outputPath = (fs, Some ''format cannot be empty'')
   \<and> (format \<noteq> [] \<longrightarrow>
        Export env now1 now2 fs (Some sb) format [] = (fs, Some ''output path cannot be empty''))
   \<and> (format \<noteq> [] \<and> format \<notin> set supported_formats \<and> outputPath \<noteq> []
        \<and> os_Create_error env outputPath = None \<longrightarrow>
        Export env now1 now2 fs (Some sb) format outputPath =
          (fs(outputPath \<mapsto> []),
           Some (''unsupported format: '' @ format @
                 '' (supported: json, xml, csv, tsv, spdx, cyclonedx)'')))
   \<and> (format \<noteq> [] \<and> outputPath \<noteq> [] \<and> os_Create_error env outputPath = Some err \<longrightarrow>
        Export env now1 now2 fs (Some sb) format outputPath =
          (fs, Some (''failed to create output file: '' @ err)))"
  by (simp add: Export_def supported_formats_def)

theorem Export_validates_then_creates_witness:
  "''yaml'' \<noteq> [] \<and> ''yaml'' \<notin> set supported_formats \<and> ''out/sbom.yaml'' \<noteq> []
   \<and> os_Create_error ex_exportEnv ''out/sbom.yaml'' = None
   \<and> Export ex_exportEnv ex_now ex_now Map.empty (Some ex_sbom) ''yaml'' ''out/sbom.yaml'' =
        (Map.empty(''out/sbom.yaml'' \<mapsto> []),
         Some ''unsupported format: yaml (supported: json, xml, csv, tsv, spdx, cyclonedx)'')
   \<and> Export ex_exportEnv ex_now ex_now Map.empty (Some ex_sbom) ''yaml'' [] =
        (Map.empty, Some ''output path cannot be empty'')"
  using Export_validates_then_creates [of ex_exportEnv ex_now ex_now Map.empty "''yaml''"
      "''out/sbom.yaml''" ex_sbom]
  by (simp add: supported_formats_def ex_exportEnv_def)

end
